theory Spec2Isabelle
  imports Main "HOL-Library.Word"
begin

section \<open>Double-precision values\<close>

text \<open>
  A C++ \<^verbatim>\<open>double\<close> is modelled by its IEEE 754 binary64 bit pattern: bit 63 is the
  sign, bits 62..52 the biased exponent, bits 51..0 the fraction. Everything that is
  exact on a double is defined on the bit pattern: the comparisons \<^verbatim>\<open><\<close> and
  \<^verbatim>\<open>==\<close> (false whenever an operand is a NaN, and blind to the sign of zero),
  \<^verbatim>\<open>abs\<close> (the \<^verbatim>\<open>std::abs (double)\<close> overload of \<^verbatim>\<open><cmath>\<close>, which clears the
  sign bit), and the conversion of a small \<^verbatim>\<open>int\<close> to \<^verbatim>\<open>double\<close>.
\<close>

type_synonym double = "64 word"

definition is_nan :: "double \<Rightarrow> bool" where
  "is_nan v \<longleftrightarrow> 0x7FF0000000000000 < take_bit 63 v"

text \<open>The position of a double that is not a NaN in the order of the extended reals:
  both zeros at 0, magnitudes ordered as their 63 low bits.\<close>

definition dkey :: "double \<Rightarrow> int" where
  "dkey v = (if bit v 63 then - uint (take_bit 63 v) else uint (take_bit 63 v))"

definition dlt :: "double \<Rightarrow> double \<Rightarrow> bool" where
  "dlt a b \<longleftrightarrow> \<not> is_nan a \<and> \<not> is_nan b \<and> dkey a < dkey b"

definition deq :: "double \<Rightarrow> double \<Rightarrow> bool" where
  "deq a b \<longleftrightarrow> \<not> is_nan a \<and> \<not> is_nan b \<and> dkey a = dkey b"

definition fabs :: "double \<Rightarrow> double" where
  "fabs v = take_bit 63 v"

fun bitlen :: "int \<Rightarrow> nat" where
  "bitlen k = (if k \<le> 0 then 0 else Suc (bitlen (k div 2)))"

declare bitlen.simps [simp del]

text \<open>The conversion of an \<^verbatim>\<open>int\<close> to \<^verbatim>\<open>double\<close>, exact for magnitudes below
  \<open>2 ^ 53\<close>; the program converts only the literals 0, 2, 4 and 10 and the result of
  \<^verbatim>\<open>sign\<close>.\<close>

definition int_to_double :: "int \<Rightarrow> double" where
  "int_to_double k =
     (if k = 0 then 0
      else let a = \<bar>k\<bar>; e = bitlen a - 1
           in (if k < 0 then push_bit 63 1 else 0)
              + word_of_int ((int e + 1022) * 2 ^ 52 + a * 2 ^ (52 - e)))"

text \<open>The literal \<^verbatim>\<open>0.5\<close>.\<close>

definition d_half :: double where
  "d_half = 0x3FE0000000000000"

text \<open>
  The rounded operations are not code of the repository: \<^verbatim>\<open>+ - * /\<close> are the
  processor's, \<^verbatim>\<open>sqrt\<close> and \<^verbatim>\<open>pow\<close> the C library's. The program is modelled over
  any choice of them. Every call of \<^verbatim>\<open>pow\<close> in the source has an \<^verbatim>\<open>int\<close> exponent
  (\<^verbatim>\<open>6\<close>, \<^verbatim>\<open>-n\<close>, \<^verbatim>\<open>2\<close>), so \<open>fpow\<close> takes one.
\<close>

record fpu =
  fadd :: "double \<Rightarrow> double \<Rightarrow> double"
  fsub :: "double \<Rightarrow> double \<Rightarrow> double"
  fmul :: "double \<Rightarrow> double \<Rightarrow> double"
  fdiv :: "double \<Rightarrow> double \<Rightarrow> double"
  fsqrt :: "double \<Rightarrow> double"
  fpow :: "double \<Rightarrow> int \<Rightarrow> double"

section \<open>The program\<close>

subsection \<open>Constants and the two helper functions\<close>

definition MAX_ITERATIONS :: int where
  "MAX_ITERATIONS = 1000000"

definition MAX_TOLERANCES :: int where
  "MAX_TOLERANCES = 40"

definition EXIT_SUCCESS :: int where
  "EXIT_SUCCESS = 0"

definition EXIT_FAILURE :: int where
  "EXIT_FAILURE = 1"

text \<open>\<^verbatim>\<open>double function (double x) { return (pow (x, 6) - 2); }\<close>\<close>

definition function_f :: "fpu \<Rightarrow> double \<Rightarrow> double" where
  "function_f A v = fsub A (fpow A v 6) (int_to_double 2)"

text \<open>\<^verbatim>\<open>int sign (double x)\<close>: the two comparisons against the literal 0, in the
  source's order.\<close>

definition sign :: "double \<Rightarrow> int" where
  "sign v =
     (if dlt (int_to_double 0) v then 1
      else if dlt v (int_to_double 0) then - 1
      else 0)"

subsection \<open>Input, output and memory\<close>

text \<open>The four values read from standard input, in the order they are read, as
  \<^verbatim>\<open>cin\<close> converted them.\<close>

record input =
  in_x0 :: double
  in_x1 :: double
  in_usr_iters :: int
  in_n :: int

text \<open>What is written to standard output: a string, a line end, an integer, or one
  table row (the two \<^verbatim>\<open>printf\<close> calls of the table loop: the step number and the four
  doubles they format).\<close>

datatype out_item =
  Str string
  | Endl
  | Num int
  | Row int double double double double

text \<open>\<^verbatim>\<open>malloc\<close> is the environment's: for each of the four calls it succeeds or
  returns \<^verbatim>\<open>NULL\<close>, and a block it returns holds arbitrary values.\<close>

record allocator =
  malloc_ok :: "nat \<Rightarrow> bool"
  malloc_junk :: "nat \<Rightarrow> nat \<Rightarrow> double"

datatype block = Null | Live "double list" | Freed

definition malloc :: "allocator \<Rightarrow> nat \<Rightarrow> nat \<Rightarrow> block" where
  "malloc M k cells =
     (if malloc_ok M k then Live (map (malloc_junk M k) [0..<cells]) else Null)"

text \<open>\<^verbatim>\<open>free\<close> releases a live block; \<^verbatim>\<open>free (NULL)\<close> does nothing.\<close>

fun free :: "block \<Rightarrow> block" where
  "free (Live xs) = Freed"
| "free b = b"

text \<open>The process as it ends: what it printed, its exit status, and the state of the
  four pointers \<^verbatim>\<open>x\<close>, \<^verbatim>\<open>y\<close>, \<^verbatim>\<open>d\<close>, \<^verbatim>\<open>c\<close>.\<close>

record result =
  printed :: "out_item list"
  status :: int
  heap :: "block list"

text \<open>Reading the local \<^verbatim>\<open>iters\<close> before any assignment to it has no defined
  behaviour.\<close>

datatype fault = Uninitialised_read

subsection \<open>The state of the solve\<close>

text \<open>The four history arrays, the locals \<^verbatim>\<open>iters\<close> (declared without an
  initial value) and \<^verbatim>\<open>find_root\<close>, and the output so far.\<close>

record solver =
  arr_x :: "double list"
  arr_y :: "double list"
  arr_d :: "double list"
  arr_c :: "double list"
  iters :: "nat option"
  find_root :: bool
  out :: "out_item list"

definition msg_converged :: string where
  "msg_converged = ''Method has converged to a root.''"

definition msg_not_reached :: string where
  "msg_not_reached = ''Method it didn't reach the allowed tolerance.''"

definition msg_different :: string where
  "msg_different = ''Values x0, x1 should be different.''"

definition msg_iterations :: string where
  "msg_iterations = ''Iterations value: 2<i<=''"

definition msg_tolerance :: string where
  "msg_tolerance = ''Tolerance value: 0<t<=''"

text \<open>Lines 170-172: \<^verbatim>\<open>for (int i = 0; i < arr_size; ++i) x[i] = y[i] = d[i] = c[i] = 0;\<close>\<close>

function zero_init :: "nat \<Rightarrow> nat \<Rightarrow> solver \<Rightarrow> solver" where
  "zero_init asize i st =
     (if i < asize then
        (let c = (arr_c st)[i := int_to_double 0];
             d = (arr_d st)[i := c ! i];
             y = (arr_y st)[i := d ! i];
             x = (arr_x st)[i := y ! i]
         in zero_init asize (i + 1) (st\<lparr>arr_x := x, arr_y := y, arr_d := d, arr_c := c\<rparr>))
      else st)"
  by pat_completeness auto
termination
  by (relation "measure (\<lambda>(asize, i, st). asize - i)") auto

declare zero_init.simps [simp del]

text \<open>Line 177: \<^verbatim>\<open>tol = 0.5 * pow (10, -n);\<close>\<close>

definition tolerance :: "fpu \<Rightarrow> int \<Rightarrow> double" where
  "tolerance A n = fmul A d_half (fpow A (int_to_double 10) (- n))"

text \<open>Lines 179-192: the two edge points, their midpoint, the three function values
  and the first divided difference.\<close>

definition seed :: "fpu \<Rightarrow> double \<Rightarrow> double \<Rightarrow> solver \<Rightarrow> solver" where
  "seed A x0 x1 st =
     (let xa = (arr_x st)[0 := x0];
          xb = xa[1 := x1];
          x = xb[2 := fdiv A (fadd A (xb ! 0) (xb ! 1)) (int_to_double 2)];
          ya = (arr_y st)[0 := function_f A (x ! 0)];
          yb = ya[1 := function_f A (x ! 1)];
          y = yb[2 := function_f A (x ! 2)];
          c = (arr_c st)[0 := fdiv A (fsub A (y ! 1) (y ! 0)) (fsub A (x ! 1) (x ! 0))]
      in st\<lparr>arr_x := x, arr_y := y, arr_c := c\<rparr>)"

text \<open>Lines 208-209, the right-hand side of the assignment to \<^verbatim>\<open>x[i+1]\<close>:
  \<^verbatim>\<open>x[i] - 2*y[i] / (s+sign (s) * sqrt (abs (pow (s, 2) - 4*y[i]*d[i])))\<close>, with
  \<open>xi\<close>, \<open>yi\<close>, \<open>di\<close> the values read from \<^verbatim>\<open>x[i]\<close>, \<^verbatim>\<open>y[i]\<close>, \<^verbatim>\<open>d[i]\<close>.\<close>

definition next_x :: "fpu \<Rightarrow> double \<Rightarrow> double \<Rightarrow> double \<Rightarrow> double \<Rightarrow> double" where
  "next_x A xi yi s di =
     fsub A xi
       (fdiv A (fmul A (int_to_double 2) yi)
          (fadd A s
             (fmul A (int_to_double (sign s))
                (fsqrt A (fabs (fsub A (fpow A s 2)
                                   (fmul A (fmul A (int_to_double 4) yi) di)))))))"

text \<open>Lines 196-221, one pass through the loop body at index \<open>i\<close>: \<open>x\<close>, \<open>y\<close>,
  \<open>d\<close>, \<open>c\<close> are the arrays as the pass finds them, \<open>c'\<close>, \<open>d'\<close>, \<open>x'\<close>, \<open>y'\<close>
  the arrays after the assignments of lines 201, 202, 208 and 212. The first component
  of the result tells whether the pass left the loop by \<^verbatim>\<open>break\<close>.\<close>

definition muller_body :: "fpu \<Rightarrow> double \<Rightarrow> nat \<Rightarrow> solver \<Rightarrow> bool \<times> solver" where
  "muller_body A tol i st =
     (let x = arr_x st; y = arr_y st; d = arr_d st; c = arr_c st;
          c' = c[i - 1 := fdiv A (fsub A (y ! (i - 0)) (y ! (i - 1)))
                                (fsub A (x ! i) (x ! (i - 1)))];
          d' = d[i - 2 := fdiv A (fsub A (c' ! (i - 1)) (c' ! (i - 2)))
                                (fsub A (x ! i) (x ! (i - 2)))];
          s = fadd A (c' ! (i - 1)) (fmul A (fsub A (x ! i) (x ! (i - 1))) (d' ! (i - 2)));
          x' = x[i + 1 := next_x A (x ! i) (y ! i) s (d' ! i)];
          y' = y[i + 1 := function_f A (x' ! (i + 1))];
          st' = st\<lparr>arr_x := x', arr_y := y', arr_d := d', arr_c := c', iters := Some i\<rparr>
      in if dlt (fabs (fsub A (x' ! (i + 1)) (x' ! i))) tol
         then (True, st'\<lparr>out := out st' @ [Str msg_converged, Endl], find_root := True\<rparr>)
         else (False, st'))"

text \<open>Line 195: \<^verbatim>\<open>for (int i = 2; i < usr_iters; ++i)\<close>.\<close>

function muller_loop :: "fpu \<Rightarrow> double \<Rightarrow> nat \<Rightarrow> nat \<Rightarrow> solver \<Rightarrow> solver" where
  "muller_loop A tol usr i st =
     (if i < usr then
        (let r = muller_body A tol i st
         in if fst r then snd r else muller_loop A tol usr (i + 1) (snd r))
      else st)"
  by pat_completeness auto
termination
  by (relation "measure (\<lambda>(A, tol, usr, i, st). usr - i)") auto

declare muller_loop.simps [simp del]

text \<open>Lines 224-242: the test after the loop, the table header and the table rows
  \<^verbatim>\<open>for (int i = 0; i <= iters; ++i)\<close>. \<open>ljust\<close> is the \<^verbatim>\<open>%-Ns\<close> of \<^verbatim>\<open>printf\<close>.\<close>

definition ljust :: "nat \<Rightarrow> string \<Rightarrow> string" where
  "ljust w s = s @ replicate (w - length s) (CHR '' '')"

definition table_header :: "out_item list" where
  "table_header =
     [Str (ljust 11 ''|step]'' @ ljust 25 ''|x]'' @ ljust 25 ''|f(x)]''),
      Str (ljust 25 ''|d]'' @ ''|c]''), Endl]"

definition table_rows :: "solver \<Rightarrow> nat \<Rightarrow> out_item list" where
  "table_rows st k =
     map (\<lambda>i. Row (int i + 1) (arr_x st ! i) (arr_y st ! i) (arr_d st ! i) (arr_c st ! i))
       [0..<Suc k]"

definition report :: "int \<Rightarrow> solver \<Rightarrow> fault + out_item list" where
  "report usr_iters st =
     (case iters st of
        None \<Rightarrow> Inl Uninitialised_read
      | Some k \<Rightarrow>
          (let o1 = (if int k \<ge> usr_iters - 1
                     then (if find_root st = False
                           then out st @ [Str msg_not_reached, Endl]
                           else out st)
                     else out st)
           in Inr (o1 @ [Endl] @ table_header @ table_rows st k)))"

subsection \<open>The whole of \<^verbatim>\<open>main\<close>\<close>

definition banner :: string where
  "banner = ''Muller's root-finding arithmetic method.''"

text \<open>What has been printed when the arrays are allocated: the banner, the four
  prompts and the line end of line 159.\<close>

definition prompts :: "out_item list" where
  "prompts =
     [Str banner, Endl, Endl, Str ''Input point x0: '', Str ''Input point x1: '',
      Str ''Iterations: '', Str ''Tolerance: '', Endl]"

fun cells :: "block \<Rightarrow> double list" where
  "cells (Live xs) = xs"
| "cells b = []"

text \<open>Lines 141-156 and 96: the four blocks as \<^verbatim>\<open>malloc\<close> returned them, \<^verbatim>\<open>iters\<close>
  without a value, \<^verbatim>\<open>find_root\<close> false.\<close>

definition arr_size :: "input \<Rightarrow> int" where
  "arr_size inp = in_usr_iters inp + 1"

definition allocated :: "allocator \<Rightarrow> input \<Rightarrow> solver" where
  "allocated M inp =
     \<lparr>arr_x = cells (malloc M 0 (nat (arr_size inp))),
      arr_y = cells (malloc M 1 (nat (arr_size inp))),
      arr_d = cells (malloc M 2 (nat (arr_size inp))),
      arr_c = cells (malloc M 3 (nat (arr_size inp))),
      iters = None, find_root = False, out = prompts\<rparr>"

text \<open>The state when control reaches the loop of line 195, and the state when
  control leaves it.\<close>

definition pre_loop :: "fpu \<Rightarrow> allocator \<Rightarrow> input \<Rightarrow> solver" where
  "pre_loop A M inp =
     seed A (in_x0 inp) (in_x1 inp) (zero_init (nat (arr_size inp)) 0 (allocated M inp))"

definition solved :: "fpu \<Rightarrow> allocator \<Rightarrow> input \<Rightarrow> solver" where
  "solved A M inp =
     muller_loop A (tolerance A (in_n inp)) (nat (in_usr_iters inp)) 2 (pre_loop A M inp)"

definition main :: "fpu \<Rightarrow> allocator \<Rightarrow> input \<Rightarrow> fault + result" where
  "main A M inp =
     (let o0 = [Str banner, Endl, Endl, Str ''Input point x0: '', Str ''Input point x1: ''] in
      if deq (in_x0 inp) (in_x1 inp) then
        Inr \<lparr>printed = o0 @ [Endl, Str msg_different, Endl],
             status = EXIT_FAILURE, heap = [Null, Null, Null, Null]\<rparr>
      else
       (let o1 = o0 @ [Str ''Iterations: ''] in
        if in_usr_iters inp \<le> 2 \<or> in_usr_iters inp > MAX_ITERATIONS then
          Inr \<lparr>printed = o1 @ [Endl, Str msg_iterations, Num MAX_ITERATIONS, Endl],
               status = EXIT_FAILURE, heap = [Null, Null, Null, Null]\<rparr>
        else
         (let o2 = o1 @ [Str ''Tolerance: ''] in
          if in_n inp \<le> 0 \<or> in_n inp > MAX_TOLERANCES then
            Inr \<lparr>printed = o2 @ [Endl, Str msg_tolerance, Num MAX_TOLERANCES, Endl],
                 status = EXIT_FAILURE, heap = [Null, Null, Null, Null]\<rparr>
          else
           (let x = malloc M 0 (nat (arr_size inp));
                y = malloc M 1 (nat (arr_size inp));
                d = malloc M 2 (nat (arr_size inp));
                c = malloc M 3 (nat (arr_size inp));
                o3 = o2 @ [Endl]
            in if x = Null \<or> y = Null \<or> d = Null \<or> c = Null then
                 Inr \<lparr>printed = o3 @ [Str ''Dynamic memory allocation problem ('',
                                        Num (arr_size inp * 8), Str '' bytes).'', Endl],
                      status = EXIT_FAILURE, heap = [x, y, d, c]\<rparr>
               else
                 (case report (in_usr_iters inp) (solved A M inp) of
                    Inl f \<Rightarrow> Inl f
                  | Inr o4 \<Rightarrow>
                      Inr \<lparr>printed = o4, status = EXIT_SUCCESS,
                           heap = [free x, free y, free d, free c]\<rparr>)))))"

section \<open>Runs and passes of the loop\<close>

text \<open>A run is accepted when it passes the three checks of lines 115-139, and granted
  its memory when the four calls of \<^verbatim>\<open>malloc\<close> succeed: these are the runs that reach
  the solve.\<close>

definition accepted :: "input \<Rightarrow> bool" where
  "accepted inp \<longleftrightarrow>
     \<not> deq (in_x0 inp) (in_x1 inp) \<and>
     2 < in_usr_iters inp \<and> in_usr_iters inp \<le> MAX_ITERATIONS \<and>
     0 < in_n inp \<and> in_n inp \<le> MAX_TOLERANCES"

definition granted :: "allocator \<Rightarrow> bool" where
  "granted M \<longleftrightarrow> malloc_ok M 0 \<and> malloc_ok M 1 \<and> malloc_ok M 2 \<and> malloc_ok M 3"

text \<open>\<open>entry_state A tol st0 k\<close> is the state in which the loop, started in \<open>st0\<close>
  at index 2, enters its pass at index \<open>k + 2\<close>; it is \<open>None\<close> when an earlier pass
  left the loop by \<^verbatim>\<open>break\<close>.\<close>

fun entry_state :: "fpu \<Rightarrow> double \<Rightarrow> solver \<Rightarrow> nat \<Rightarrow> solver option" where
  "entry_state A tol st0 0 = Some st0"
| "entry_state A tol st0 (Suc k) =
     (case entry_state A tol st0 k of
        None \<Rightarrow> None
      | Some st \<Rightarrow>
          (let r = muller_body A tol (k + 2) st in if fst r then None else Some (snd r)))"

text \<open>The pass at index \<open>i\<close> is executed, entered in state \<open>pre\<close>.\<close>

definition executes :: "fpu \<Rightarrow> allocator \<Rightarrow> input \<Rightarrow> nat \<Rightarrow> solver \<Rightarrow> bool" where
  "executes A M inp i pre \<longleftrightarrow>
     2 \<le> i \<and> i < nat (in_usr_iters inp) \<and>
     entry_state A (tolerance A (in_n inp)) (pre_loop A M inp) (i - 2) = Some pre"

definition is_row :: "out_item \<Rightarrow> bool" where
  "is_row item = (case item of Row k a b c d \<Rightarrow> True | _ \<Rightarrow> False)"

definition quiet_nan :: double where
  "quiet_nan = 0x7FF8000000000000"

text \<open>An allocator that grants every request, one that grants only the first two, and
  one that grants none.\<close>

definition malloc_all :: allocator where
  "malloc_all = \<lparr>malloc_ok = (\<lambda>k. True), malloc_junk = (\<lambda>k j. quiet_nan)\<rparr>"

definition malloc_two :: allocator where
  "malloc_two = \<lparr>malloc_ok = (\<lambda>k. k < 2), malloc_junk = (\<lambda>k j. quiet_nan)\<rparr>"

definition malloc_none :: allocator where
  "malloc_none = \<lparr>malloc_ok = (\<lambda>k. False), malloc_junk = (\<lambda>k j. quiet_nan)\<rparr>"

text \<open>Five inputs: the source's first example (\<open>x0 = 1\<close>, \<open>x1 = 2\<close>, 20
  iterations, 15 digits); a run of the smallest iteration count and tolerance from the
  points 1 and 1.25, which are near the root; a run from the points 1 and -1, whose
  midpoint is 0; a run from the points 3e51 and -1e51 (the doubles nearest to them),
  at the first of which \<open>x^6\<close> overflows; and a run whose two points are the same, 3
  twice.\<close>

definition example_input :: input where
  "example_input =
     \<lparr>in_x0 = int_to_double 1, in_x1 = int_to_double 2, in_usr_iters = 20, in_n = 15\<rparr>"

definition near_input :: input where
  "near_input =
     \<lparr>in_x0 = int_to_double 1, in_x1 = 0x3FF4000000000000, in_usr_iters = 3, in_n = 1\<rparr>"


definition overflow_input :: input where
  "overflow_input =
     \<lparr>in_x0 = 0x4AA0095DD9267E50, in_x1 = 0xCA8561D276DDFDC0, in_usr_iters = 20, in_n = 15\<rparr>"

definition duplicate_input :: input where
  "duplicate_input =
     \<lparr>in_x0 = int_to_double 3, in_x1 = int_to_double 3, in_usr_iters = 20, in_n = 15\<rparr>"

text \<open>What holds whenever the loop enters its pass at index \<open>i\<close>: the arrays have
  \<open>usr + 1\<close> cells, \<^verbatim>\<open>d\<close> is still zero from index \<open>i - 2\<close> on and \<^verbatim>\<open>c\<close> from
  index \<open>i - 1\<close> on, no convergence has been flagged or reported, and \<^verbatim>\<open>iters\<close> holds
  the index of the pass before, if there was one.\<close>

definition loop_inv :: "nat \<Rightarrow> nat \<Rightarrow> solver \<Rightarrow> bool" where
  "loop_inv usr i st \<longleftrightarrow>
     length (arr_x st) = usr + 1 \<and> length (arr_y st) = usr + 1 \<and>
     length (arr_d st) = usr + 1 \<and> length (arr_c st) = usr + 1 \<and>
     (\<forall>j. i - 2 \<le> j \<and> j \<le> usr \<longrightarrow> arr_d st ! j = 0) \<and>
     (\<forall>j. i - 1 \<le> j \<and> j \<le> usr \<longrightarrow> arr_c st ! j = 0) \<and>
     find_root st = False \<and> out st = prompts \<and>
     iters st = (if i = 2 then None else Some (i - 1))"

text \<open>The exit status of a run, when it has one.\<close>

definition exit_status :: "fault + result \<Rightarrow> int option" where
  "exit_status r = (case r of Inl f \<Rightarrow> None | Inr res \<Rightarrow> Some (status res))"

text \<open>What a run that reaches the solve prints: the prompts, one of the two outcome
  messages, the empty line, the table header and the rows up to index \<open>k\<close>.\<close>

definition transcript :: "bool \<Rightarrow> solver \<Rightarrow> nat \<Rightarrow> out_item list" where
  "transcript conv st k =
     prompts @ (if conv then [Str msg_converged, Endl] else [Str msg_not_reached, Endl])
       @ [Endl] @ table_header @ table_rows st k"

section \<open>An arithmetic to run the model\<close>

text \<open>
  To run the model on concrete inputs: IEEE 754 binary64 arithmetic with rounding to
  nearest, ties to even, which is what the processor computes for \<^verbatim>\<open>+ - * /\<close> and
  for \<^verbatim>\<open>sqrt\<close>, and a correctly rounded \<^verbatim>\<open>pow\<close> for integer exponents (the C
  library's may differ from it in the last bit). The operations work on the bit pattern
  as an integer \<open>u\<close> with \<open>0 \<le> u < 2 ^ 64\<close>. A finite double is
  \<open>\<plusminus> mant u * 2 ^ expo u\<close>; \<open>round_bits neg m e sticky\<close> is the double nearest to
  \<open>\<plusminus> (m + t) * 2 ^ e\<close>, where \<open>0 \<le> t < 1\<close> and \<open>t\<close> is not 0 exactly when
  \<open>sticky\<close> holds (the callers leave at least two bits below the last place when they
  set it). Which NaN an operation returns is the processor's choice; the one made here
  is that of the x86-64 processor: an invalid operation returns the default NaN
  \<open>0xFFF8000000000000\<close>, and an operation on a NaN returns that operand made quiet,
  the first operand when both are NaNs. The \<^verbatim>\<open>pow\<close> of a NaN is that NaN made quiet
  (the exponents 6 and 2, with which a NaN can reach it, are even).
\<close>

function width :: "int \<Rightarrow> nat" where
  "width k =
     (if 0x100000000 \<le> k then 32 + width (k div 0x100000000)
      else if 0x100 \<le> k then 8 + width (k div 0x100)
      else if 0 < k then 1 + width (k div 2)
      else 0)"
  by pat_completeness auto
termination
  by (relation "measure nat") auto

declare width.simps [simp del]

definition negative :: "int \<Rightarrow> bool" where
  "negative u \<longleftrightarrow> 0x8000000000000000 \<le> u"

definition magnitude :: "int \<Rightarrow> int" where
  "magnitude u = u mod 0x8000000000000000"

definition nan_bits :: int where
  "nan_bits = 0xFFF8000000000000"

definition quiet :: "int \<Rightarrow> int" where
  "quiet u = or u 0x8000000000000"

definition nan_of :: "int \<Rightarrow> int \<Rightarrow> int" where
  "nan_of a b = (if 0x7FF0000000000000 < magnitude a then quiet a else quiet b)"

definition inf_bits :: "bool \<Rightarrow> int" where
  "inf_bits neg = (if neg then 0xFFF0000000000000 else 0x7FF0000000000000)"

definition zero_bits :: "bool \<Rightarrow> int" where
  "zero_bits neg = (if neg then 0x8000000000000000 else 0)"

definition mant :: "int \<Rightarrow> int" where
  "mant u =
     (let g = magnitude u
      in if g < 0x10000000000000 then g else 0x10000000000000 + g mod 0x10000000000000)"

definition expo :: "int \<Rightarrow> int" where
  "expo u =
     (let g = magnitude u
      in if g < 0x10000000000000 then - 1074 else g div 0x10000000000000 - 1075)"

definition round_bits :: "bool \<Rightarrow> int \<Rightarrow> int \<Rightarrow> bool \<Rightarrow> int" where
  "round_bits neg m e sticky =
     (let q = max (int (width m) - 53 + e) (- 1074);
          sh = q - e;
          r = (if sh \<le> 0 then m * 2 ^ nat (- sh)
               else let r0 = m div 2 ^ nat sh; rm = m mod 2 ^ nat sh; half = 2 ^ nat (sh - 1)
                    in if half < rm \<or> (rm = half \<and> (sticky \<or> r0 mod 2 = 1)) then r0 + 1 else r0);
          bits = (q + 1074) * 0x10000000000000 + r
      in if m = 0 then zero_bits neg
         else if 0x7FF0000000000000 \<le> bits then inf_bits neg
         else zero_bits neg + bits)"

definition add_bits :: "int \<Rightarrow> int \<Rightarrow> int" where
  "add_bits a b =
     (let ga = magnitude a; gb = magnitude b in
      if 0x7FF0000000000000 < ga \<or> 0x7FF0000000000000 < gb then nan_of a b
      else if ga = 0x7FF0000000000000 then
        (if gb = 0x7FF0000000000000 \<and> negative a \<noteq> negative b then nan_bits else a)
      else if gb = 0x7FF0000000000000 then b
      else if ga = 0 \<and> gb = 0 then zero_bits (negative a \<and> negative b)
      else let e = min (expo a) (expo b);
               ma = mant a * 2 ^ nat (expo a - e); mb = mant b * 2 ^ nat (expo b - e);
               s = (if negative a then - ma else ma) + (if negative b then - mb else mb)
           in if s = 0 then 0 else round_bits (s < 0) \<bar>s\<bar> e False)"

definition neg_bits :: "int \<Rightarrow> int" where
  "neg_bits u = (if negative u then u - 0x8000000000000000 else u + 0x8000000000000000)"

definition sub_bits :: "int \<Rightarrow> int \<Rightarrow> int" where
  "sub_bits a b =
     (if 0x7FF0000000000000 < magnitude a \<or> 0x7FF0000000000000 < magnitude b then nan_of a b
      else add_bits a (neg_bits b))"

definition mul_bits :: "int \<Rightarrow> int \<Rightarrow> int" where
  "mul_bits a b =
     (let ga = magnitude a; gb = magnitude b; neg = (negative a \<noteq> negative b) in
      if 0x7FF0000000000000 < ga \<or> 0x7FF0000000000000 < gb then nan_of a b
      else if ga = 0x7FF0000000000000 \<or> gb = 0x7FF0000000000000 then
        (if ga = 0 \<or> gb = 0 then nan_bits else inf_bits neg)
      else if ga = 0 \<or> gb = 0 then zero_bits neg
      else round_bits neg (mant a * mant b) (expo a + expo b) False)"

definition div_bits :: "int \<Rightarrow> int \<Rightarrow> int" where
  "div_bits a b =
     (let ga = magnitude a; gb = magnitude b; neg = (negative a \<noteq> negative b) in
      if 0x7FF0000000000000 < ga \<or> 0x7FF0000000000000 < gb then nan_of a b
      else if ga = 0x7FF0000000000000 then
        (if gb = 0x7FF0000000000000 then nan_bits else inf_bits neg)
      else if gb = 0x7FF0000000000000 then zero_bits neg
      else if gb = 0 then (if ga = 0 then nan_bits else inf_bits neg)
      else if ga = 0 then zero_bits neg
      else let sh = 58 + width (mant b) - width (mant a); n = mant a * 2 ^ sh
           in round_bits neg (n div mant b) (expo a - expo b - int sh) (n mod mant b \<noteq> 0))"

function newton :: "int \<Rightarrow> int \<Rightarrow> int" where
  "newton n x =
     (let y = (x + n div x) div 2 in if 0 < x \<and> y < x then newton n y else x)"
  by pat_completeness auto
termination
  by (relation "measure (\<lambda>(n, x). nat x)") auto

declare newton.simps [simp del]

definition isqrt :: "int \<Rightarrow> int" where
  "isqrt n = newton n (2 ^ (width n div 2 + 1))"

definition sqrt_bits :: "int \<Rightarrow> int" where
  "sqrt_bits a =
     (let ga = magnitude a in
      if 0x7FF0000000000000 < ga then quiet a
      else if ga = 0 then a
      else if negative a then nan_bits
      else if ga = 0x7FF0000000000000 then a
      else let odd_e = (expo a mod 2 = 1);
               m = (if odd_e then 2 * mant a else mant a);
               e = (if odd_e then expo a - 1 else expo a);
               k = (117 - width m) div 2;
               n = m * 2 ^ (2 * k);
               r = isqrt n
           in round_bits False r (e div 2 - int k) (r * r \<noteq> n))"

definition pow_bits :: "int \<Rightarrow> int \<Rightarrow> int" where
  "pow_bits a k =
     (let ga = magnitude a; neg = (negative a \<and> k mod 2 = 1) in
      if k = 0 then 0x3FF0000000000000
      else if 0x7FF0000000000000 < ga then quiet a
      else if ga = 0x7FF0000000000000 then (if 0 < k then inf_bits neg else zero_bits neg)
      else if ga = 0 then (if 0 < k then zero_bits neg else inf_bits neg)
      else if 0 < k then round_bits neg (mant a ^ nat k) (expo a * k) False
      else let p = mant a ^ nat (- k); sh = width p + 60; n = 2 ^ sh
           in round_bits neg (n div p) (expo a * k - int sh) (n mod p \<noteq> 0))"

definition fpu_ieee :: fpu where
  "fpu_ieee =
     \<lparr>fadd = (\<lambda>a b. word_of_int (add_bits (uint a) (uint b))),
      fsub = (\<lambda>a b. word_of_int (sub_bits (uint a) (uint b))),
      fmul = (\<lambda>a b. word_of_int (mul_bits (uint a) (uint b))),
      fdiv = (\<lambda>a b. word_of_int (div_bits (uint a) (uint b))),
      fsqrt = (\<lambda>a. word_of_int (sqrt_bits (uint a))),
      fpow = (\<lambda>a k. word_of_int (pow_bits (uint a) k))\<rparr>"

section \<open>Exact operations on doubles\<close>

lemma int_to_double_0: "int_to_double 0 = 0"
  by (simp add: int_to_double_def)

text \<open>The bit patterns of the constants of the program, and the comparisons on a few
  values: \<open>-0.0 == 0.0\<close>, a NaN equals nothing, \<open>abs (-7) = 7\<close>.\<close>

lemma int_to_double_constants:
  "int_to_double 1 = 0x3FF0000000000000" "int_to_double (- 1) = 0xBFF0000000000000"
  "int_to_double 2 = 0x4000000000000000" "int_to_double 4 = 0x4010000000000000"
  "int_to_double 10 = 0x4024000000000000"
  by code_simp+

lemma comparison_examples:
  "dlt d_half (int_to_double 1)" "dlt (int_to_double (- 2)) (int_to_double (- 1))"
  "deq 0x8000000000000000 0" "\<not> dlt 0x8000000000000000 0"
  "\<not> deq quiet_nan quiet_nan" "\<not> dlt quiet_nan (int_to_double 1)"
  "dlt (int_to_double 10) 0x7FF0000000000000"
  "fabs (int_to_double (- 7)) = int_to_double 7"
  by code_simp+

text \<open>The arithmetic on a few values: \<open>1 / 3\<close>, \<open>sqrt 2\<close>, \<open>0.1 + 0.2\<close>, the
  tolerance for 15 digits, \<open>f 1.5\<close>, and the invalid and the divide-by-zero
  operations.\<close>

lemma ieee_examples:
  "fdiv fpu_ieee (int_to_double 1) (int_to_double 3) = 0x3FD5555555555555"
  "fsqrt fpu_ieee (int_to_double 2) = 0x3FF6A09E667F3BCD"
  "fadd fpu_ieee 0x3FB999999999999A 0x3FC999999999999A = 0x3FD3333333333334"
  "tolerance fpu_ieee 15 = 0x3CC203AF9EE75616"
  "function_f fpu_ieee 0x3FF8000000000000 = 0x4022C80000000000"
  "fdiv fpu_ieee (int_to_double 1) 0 = 0x7FF0000000000000"
  "fdiv fpu_ieee (int_to_double (- 1)) 0 = 0xFFF0000000000000"
  "is_nan (fdiv fpu_ieee 0 0)"
  "is_nan (fsub fpu_ieee 0x7FF0000000000000 0x7FF0000000000000)"
  "is_nan (fmul fpu_ieee 0 0x7FF0000000000000)"
  "is_nan (fsqrt fpu_ieee (int_to_double (- 1)))"
  by code_simp+









section \<open>The arithmetic at zero, at infinity and on NaNs\<close>

text \<open>The NaNs that the arithmetic returns: the default NaN of an invalid operation, and
  a NaN operand made quiet, the first one when both operands are NaNs.\<close>

lemma nan_examples:
  "fsub fpu_ieee 0x7FF0000000000000 0x7FF0000000000000 = 0xFFF8000000000000"
  "fsqrt fpu_ieee 0x7FF8000000000000 = 0x7FF8000000000000"
  "fadd fpu_ieee 0xFFF8000000000000 (int_to_double 1) = 0xFFF8000000000000"
  "fadd fpu_ieee (int_to_double 1) 0x7FF8000000000000 = 0x7FF8000000000000"
  "fsub fpu_ieee 0x7FF4000000000000 0xFFF8000000000000 = 0x7FFC000000000000"
  "fpow fpu_ieee 0xFFF8000000000000 6 = 0xFFF8000000000000"
  by code_simp+

text \<open>What the arithmetic does for all operands of these kinds: \<open>0 * r\<close> is \<open>+0\<close> for
  a finite \<open>r\<close> that is not negative and a NaN for an infinite or NaN \<open>r\<close>; the sum of
  a zero and \<open>+0\<close> is \<open>+0\<close>; a NaN as second operand of \<^verbatim>\<open>+ - /\<close> gives a NaN; and
  the square root of an absolute value has its sign bit clear.\<close>

lemma magnitude_uint: "magnitude (uint (r :: 64 word)) = uint (take_bit 63 r)"
  by (simp add: magnitude_def unsigned_take_bit_eq take_bit_int_def)

lemma is_nan_magnitude: "is_nan r \<longleftrightarrow> 0x7FF0000000000000 < magnitude (uint r)"
  by (simp add: is_nan_def magnitude_uint word_less_alt)

lemma magnitude_word: "magnitude (uint (word_of_int k :: 64 word)) = magnitude k"
  by (simp add: magnitude_def uint_word_of_int mod_mod_cancel)

lemma is_nan_word: "is_nan (word_of_int k) \<longleftrightarrow> 0x7FF0000000000000 < magnitude k"
  by (simp add: is_nan_magnitude magnitude_word)


















section \<open>The loops\<close>

lemma zero_init_fields:
  "i \<le> n \<Longrightarrow> length (arr_x st) = n \<Longrightarrow> length (arr_y st) = n \<Longrightarrow>
   length (arr_d st) = n \<Longrightarrow> length (arr_c st) = n \<Longrightarrow>
   arr_x (zero_init n i st) = take i (arr_x st) @ replicate (n - i) 0 \<and>
   arr_y (zero_init n i st) = take i (arr_y st) @ replicate (n - i) 0 \<and>
   arr_d (zero_init n i st) = take i (arr_d st) @ replicate (n - i) 0 \<and>
   arr_c (zero_init n i st) = take i (arr_c st) @ replicate (n - i) 0 \<and>
   iters (zero_init n i st) = iters st \<and>
   find_root (zero_init n i st) = find_root st \<and>
   out (zero_init n i st) = out st"
proof (induction n i st rule: zero_init.induct)
  case (1 n i st)
  show ?case
  proof (cases "i < n")
    case False
    with "1.prems" show ?thesis
      by (simp add: zero_init.simps)
  next
    case True
    have tk: "take (Suc i) (zs[i := 0]) @ replicate (n - Suc i) 0 = take i zs @ replicate (n - i) 0"
      if "length zs = n" for zs :: "double list"
    proof -
      have "take (Suc i) (zs[i := 0]) = take i zs @ [0]"
        using that True by (simp add: take_Suc_conv_app_nth)
      moreover have "replicate (n - i) (0::double) = 0 # replicate (n - Suc i) 0"
        using True by (cases "n - i") (auto simp: Suc_diff_Suc)
      ultimately show ?thesis by simp
    qed
    show ?thesis
      using True "1.prems" "1.IH"[OF True refl refl refl refl]
      by (subst (1 2 3 4 5 6 7) zero_init.simps)
         (simp add: Let_def int_to_double_0 tk)
  qed
qed

lemma body_arr_c:
  "arr_c (snd (muller_body A tol i st)) =
     (arr_c st)[i - 1 := fdiv A (fsub A (arr_y st ! i) (arr_y st ! (i - 1)))
                               (fsub A (arr_x st ! i) (arr_x st ! (i - 1)))]"
  by (simp add: muller_body_def Let_def)

lemma body_arr_d:
  "arr_d (snd (muller_body A tol i st)) =
     (arr_d st)[i - 2 :=
        fdiv A (fsub A (arr_c (snd (muller_body A tol i st)) ! (i - 1))
                       (arr_c (snd (muller_body A tol i st)) ! (i - 2)))
               (fsub A (arr_x st ! i) (arr_x st ! (i - 2)))]"
  by (simp add: muller_body_def Let_def)

lemma body_arr_x:
  "arr_x (snd (muller_body A tol i st)) =
     (arr_x st)[i + 1 :=
        next_x A (arr_x st ! i) (arr_y st ! i)
          (fadd A (arr_c (snd (muller_body A tol i st)) ! (i - 1))
             (fmul A (fsub A (arr_x st ! i) (arr_x st ! (i - 1)))
                     (arr_d (snd (muller_body A tol i st)) ! (i - 2))))
          (arr_d (snd (muller_body A tol i st)) ! i)]"
  by (simp add: muller_body_def Let_def)

lemma body_arr_y:
  "arr_y (snd (muller_body A tol i st)) =
     (arr_y st)[i + 1 := function_f A (arr_x (snd (muller_body A tol i st)) ! (i + 1))]"
  by (simp add: muller_body_def Let_def)

lemma body_iters: "iters (snd (muller_body A tol i st)) = Some i"
  by (simp add: muller_body_def Let_def)

lemma body_find_root:
  "find_root (snd (muller_body A tol i st)) = (fst (muller_body A tol i st) \<or> find_root st)"
  by (simp add: muller_body_def Let_def)

lemma body_out:
  "out (snd (muller_body A tol i st)) =
     (if fst (muller_body A tol i st) then out st @ [Str msg_converged, Endl] else out st)"
  by (simp add: muller_body_def Let_def)

lemma body_break:
  "fst (muller_body A tol i st) =
     dlt (fabs (fsub A (arr_x (snd (muller_body A tol i st)) ! (i + 1))
                       (arr_x (snd (muller_body A tol i st)) ! i))) tol"
  by (simp add: muller_body_def Let_def)

lemma body_inv:
  assumes inv: "loop_inv usr i st" and i: "2 \<le> i" "i < usr"
    and nb: "\<not> fst (muller_body A tol i st)"
  shows "loop_inv usr (i + 1) (snd (muller_body A tol i st))"
proof -
  let ?p = "snd (muller_body A tol i st)"
  have len: "length (arr_x st) = usr + 1" "length (arr_y st) = usr + 1"
    "length (arr_d st) = usr + 1" "length (arr_c st) = usr + 1"
    using inv by (simp_all add: loop_inv_def)
  have d0: "\<And>j. i - 2 \<le> j \<Longrightarrow> j \<le> usr \<Longrightarrow> arr_d st ! j = 0"
    and c0: "\<And>j. i - 1 \<le> j \<Longrightarrow> j \<le> usr \<Longrightarrow> arr_c st ! j = 0"
    using inv by (simp_all add: loop_inv_def)
  have "length (arr_x ?p) = usr + 1" "length (arr_y ?p) = usr + 1"
    "length (arr_d ?p) = usr + 1" "length (arr_c ?p) = usr + 1"
    by (simp_all add: body_arr_x body_arr_y body_arr_d body_arr_c len)
  moreover have "arr_d ?p ! j = 0" if "i + 1 - 2 \<le> j" "j \<le> usr" for j
  proof -
    have "arr_d ?p ! j = arr_d st ! j"
      using that i by (subst body_arr_d) simp
    then show ?thesis using that d0 [of j] by simp
  qed
  moreover have "arr_c ?p ! j = 0" if "i + 1 - 1 \<le> j" "j \<le> usr" for j
  proof -
    have "arr_c ?p ! j = arr_c st ! j"
      using that i by (subst body_arr_c) simp
    then show ?thesis using that c0 [of j] by simp
  qed
  moreover have "find_root ?p = False" "out ?p = prompts"
    using inv nb by (simp_all add: body_find_root body_out loop_inv_def)
  moreover have "iters ?p = (if i + 1 = 2 then None else Some (i + 1 - 1))"
    using i by (simp add: body_iters)
  ultimately show ?thesis
    unfolding loop_inv_def by blast
qed

lemma entry_inv:
  "loop_inv usr 2 st0 \<Longrightarrow> entry_state A tol st0 k = Some st \<Longrightarrow> k + 2 \<le> usr \<Longrightarrow>
   loop_inv usr (k + 2) st"
proof (induction k arbitrary: st)
  case 0
  then show ?case by (simp add: numeral_2_eq_2)
next
  case (Suc k)
  from Suc.prems(2) obtain st' where e: "entry_state A tol st0 k = Some st'"
    and nb: "\<not> fst (muller_body A tol (k + 2) st')"
    and st: "st = snd (muller_body A tol (k + 2) st')"
    by (auto simp: Let_def split: option.splits if_splits)
  have "loop_inv usr (k + 2) st'"
    using Suc.IH [OF Suc.prems(1) e] Suc.prems(3) by simp
  then have "loop_inv usr (k + 2 + 1) st"
    unfolding st using Suc.prems(3) nb by (intro body_inv) simp_all
  then show ?case by simp
qed

lemma loop_from_entry:
  "entry_state A tol st0 k = Some st \<Longrightarrow> k + 2 \<le> usr \<Longrightarrow>
   muller_loop A tol usr 2 st0 = muller_loop A tol usr (k + 2) st"
proof (induction k arbitrary: st)
  case 0
  then show ?case by (simp add: numeral_2_eq_2)
next
  case (Suc k)
  from Suc.prems obtain st' where e: "entry_state A tol st0 k = Some st'"
    and nb: "\<not> fst (muller_body A tol (k + 2) st')"
    and st: "st = snd (muller_body A tol (k + 2) st')"
    by (auto simp: Let_def split: option.splits if_splits)
  have lt: "k + 2 < usr" using Suc.prems(2) by simp
  have "muller_loop A tol usr (k + 2) st' = muller_loop A tol usr (Suc k + 2) st"
    using lt nb st by (subst muller_loop.simps) (simp add: Let_def)
  moreover have "muller_loop A tol usr 2 st0 = muller_loop A tol usr (k + 2) st'"
    using Suc.IH [OF e] lt by simp
  ultimately show ?case by simp
qed

text \<open>The loop ends in the state its last pass leaves: that pass either breaks or is
  the pass at index usr - 1.\<close>

lemma loop_last_from:
  "i < usr \<Longrightarrow> i = k + 2 \<Longrightarrow> entry_state A tol st0 k = Some st \<Longrightarrow>
   \<exists>k' st'. k \<le> k' \<and> k' + 2 < usr \<and> entry_state A tol st0 k' = Some st' \<and>
     muller_loop A tol usr i st = snd (muller_body A tol (k' + 2) st') \<and>
     (fst (muller_body A tol (k' + 2) st') \<or> k' + 3 = usr)"
proof (induction A tol usr i st arbitrary: k rule: muller_loop.induct)
  case (1 A tol usr i st)
  let ?r = "muller_body A tol i st"
  show ?case
  proof (cases "fst ?r")
    case True
    then have "muller_loop A tol usr i st = snd ?r"
      using "1.prems"(1) by (subst muller_loop.simps) (simp add: Let_def)
    with True "1.prems" show ?thesis by (intro exI [of _ k] exI [of _ st]) simp
  next
    case False
    then have step: "muller_loop A tol usr i st = muller_loop A tol usr (i + 1) (snd ?r)"
      using "1.prems"(1) by (subst muller_loop.simps) (simp add: Let_def)
    show ?thesis
    proof (cases "i + 1 < usr")
      case stop: False
      then have "muller_loop A tol usr (i + 1) (snd ?r) = snd ?r"
        by (subst muller_loop.simps) simp
      with step stop "1.prems" show ?thesis
        by (intro exI [of _ k] exI [of _ st]) simp
    next
      case go: True
      have e: "entry_state A tol st0 (Suc k) = Some (snd ?r)"
        using "1.prems" False by (simp add: Let_def)
      obtain k' st' where "Suc k \<le> k'" "k' + 2 < usr" "entry_state A tol st0 k' = Some st'"
        "muller_loop A tol usr (i + 1) (snd ?r) = snd (muller_body A tol (k' + 2) st')"
        "fst (muller_body A tol (k' + 2) st') \<or> k' + 3 = usr"
        using "1.IH" [OF "1.prems"(1) refl False go _ e, of ] "1.prems"(2) by auto
      with step show ?thesis
        by (intro exI [of _ k'] exI [of _ st']) simp
    qed
  qed
qed

section \<open>The state before the loop\<close>

lemma zeroed_fields:
  assumes "granted M"
  shows "arr_x (zero_init (nat (arr_size inp)) 0 (allocated M inp)) = replicate (nat (arr_size inp)) 0"
    and "arr_y (zero_init (nat (arr_size inp)) 0 (allocated M inp)) = replicate (nat (arr_size inp)) 0"
    and "arr_d (zero_init (nat (arr_size inp)) 0 (allocated M inp)) = replicate (nat (arr_size inp)) 0"
    and "arr_c (zero_init (nat (arr_size inp)) 0 (allocated M inp)) = replicate (nat (arr_size inp)) 0"
    and "iters (zero_init (nat (arr_size inp)) 0 (allocated M inp)) = None"
    and "find_root (zero_init (nat (arr_size inp)) 0 (allocated M inp)) = False"
    and "out (zero_init (nat (arr_size inp)) 0 (allocated M inp)) = prompts"
proof -
  have len: "length (arr_x (allocated M inp)) = nat (arr_size inp)"
    "length (arr_y (allocated M inp)) = nat (arr_size inp)"
    "length (arr_d (allocated M inp)) = nat (arr_size inp)"
    "length (arr_c (allocated M inp)) = nat (arr_size inp)"
    using assms by (simp_all add: allocated_def granted_def malloc_def)
  note z = zero_init_fields [of 0 "nat (arr_size inp)" "allocated M inp", OF _ len]
  show "arr_x (zero_init (nat (arr_size inp)) 0 (allocated M inp)) = replicate (nat (arr_size inp)) 0"
    and "arr_y (zero_init (nat (arr_size inp)) 0 (allocated M inp)) = replicate (nat (arr_size inp)) 0"
    and "arr_d (zero_init (nat (arr_size inp)) 0 (allocated M inp)) = replicate (nat (arr_size inp)) 0"
    and "arr_c (zero_init (nat (arr_size inp)) 0 (allocated M inp)) = replicate (nat (arr_size inp)) 0"
    and "iters (zero_init (nat (arr_size inp)) 0 (allocated M inp)) = None"
    and "find_root (zero_init (nat (arr_size inp)) 0 (allocated M inp)) = False"
    and "out (zero_init (nat (arr_size inp)) 0 (allocated M inp)) = prompts"
    using z by (simp_all add: allocated_def)
qed

lemma seed_fields:
  "arr_x (seed A x0 x1 st) =
     (arr_x st)[0 := x0, 1 := x1,
        2 := fdiv A (fadd A ((arr_x st)[0 := x0, 1 := x1] ! 0) ((arr_x st)[0 := x0, 1 := x1] ! 1))
               (int_to_double 2)]"
  "arr_y (seed A x0 x1 st) =
     (arr_y st)[0 := function_f A (arr_x (seed A x0 x1 st) ! 0),
        1 := function_f A (arr_x (seed A x0 x1 st) ! 1),
        2 := function_f A (arr_x (seed A x0 x1 st) ! 2)]"
  "arr_c (seed A x0 x1 st) =
     (arr_c st)[0 := fdiv A (fsub A (arr_y (seed A x0 x1 st) ! 1) (arr_y (seed A x0 x1 st) ! 0))
                          (fsub A (arr_x (seed A x0 x1 st) ! 1) (arr_x (seed A x0 x1 st) ! 0))]"
  "arr_d (seed A x0 x1 st) = arr_d st"
  "iters (seed A x0 x1 st) = iters st"
  "find_root (seed A x0 x1 st) = find_root st"
  "out (seed A x0 x1 st) = out st"
  by (simp_all add: seed_def Let_def)

lemma usr_nat: "accepted inp \<Longrightarrow> nat (arr_size inp) = nat (in_usr_iters inp) + 1 \<and> 2 < nat (in_usr_iters inp)"
  unfolding accepted_def arr_size_def by linarith

lemma pre_loop_inv:
  assumes "accepted inp" "granted M"
  shows "loop_inv (nat (in_usr_iters inp)) 2 (pre_loop A M inp)"
proof -
  let ?n = "nat (in_usr_iters inp)"
  have n: "2 < ?n" and m: "nat (arr_size inp) = Suc ?n"
    using usr_nat [OF assms(1)] by simp_all
  note z = zeroed_fields [OF assms(2), of inp, unfolded m]
  have "arr_d (pre_loop A M inp) ! j = 0" if "j \<le> ?n" for j
    using that by (simp add: pre_loop_def seed_fields m z del: replicate.simps)
  moreover have "arr_c (pre_loop A M inp) ! j = 0" if "1 \<le> j" "j \<le> ?n" for j
    using that by (simp add: pre_loop_def seed_fields(3) m z del: replicate.simps)
  moreover have "length (arr_x (pre_loop A M inp)) = ?n + 1"
    "length (arr_y (pre_loop A M inp)) = ?n + 1"
    "length (arr_d (pre_loop A M inp)) = ?n + 1"
    "length (arr_c (pre_loop A M inp)) = ?n + 1"
    by (simp_all add: pre_loop_def seed_fields z m)
  moreover have "find_root (pre_loop A M inp) = False" "out (pre_loop A M inp) = prompts"
    "iters (pre_loop A M inp) = None"
    by (simp_all add: pre_loop_def seed_fields m z)
  ultimately show ?thesis
    unfolding loop_inv_def by simp
qed

lemma pre_loop_values:
  assumes "accepted inp" "granted M"
  shows "arr_x (pre_loop A M inp) ! 0 = in_x0 inp"
    and "arr_x (pre_loop A M inp) ! 1 = in_x1 inp"
    and "arr_x (pre_loop A M inp) ! 2 = fdiv A (fadd A (in_x0 inp) (in_x1 inp)) (int_to_double 2)"
    and "arr_y (pre_loop A M inp) ! 0 = function_f A (arr_x (pre_loop A M inp) ! 0)"
    and "arr_y (pre_loop A M inp) ! 1 = function_f A (arr_x (pre_loop A M inp) ! 1)"
    and "arr_y (pre_loop A M inp) ! 2 = function_f A (arr_x (pre_loop A M inp) ! 2)"
    and "arr_c (pre_loop A M inp) ! 0 =
           fdiv A (fsub A (arr_y (pre_loop A M inp) ! 1) (arr_y (pre_loop A M inp) ! 0))
                  (fsub A (arr_x (pre_loop A M inp) ! 1) (arr_x (pre_loop A M inp) ! 0))"
proof -
  let ?n = "nat (in_usr_iters inp)"
  have n: "2 < ?n" and m: "nat (arr_size inp) = Suc ?n"
    using usr_nat [OF assms(1)] by simp_all
  note z = zeroed_fields [OF assms(2), of inp, unfolded m]
  show x0: "arr_x (pre_loop A M inp) ! 0 = in_x0 inp"
    and x1: "arr_x (pre_loop A M inp) ! 1 = in_x1 inp"
    and "arr_x (pre_loop A M inp) ! 2 = fdiv A (fadd A (in_x0 inp) (in_x1 inp)) (int_to_double 2)"
    using n by (simp_all add: pre_loop_def seed_fields(1) m z del: replicate.simps)
  show "arr_y (pre_loop A M inp) ! 0 = function_f A (arr_x (pre_loop A M inp) ! 0)"
    and "arr_y (pre_loop A M inp) ! 1 = function_f A (arr_x (pre_loop A M inp) ! 1)"
    and "arr_y (pre_loop A M inp) ! 2 = function_f A (arr_x (pre_loop A M inp) ! 2)"
    using n unfolding pre_loop_def by (subst seed_fields(2), simp add: m z del: replicate.simps)+
  show "arr_c (pre_loop A M inp) ! 0 =
           fdiv A (fsub A (arr_y (pre_loop A M inp) ! 1) (arr_y (pre_loop A M inp) ! 0))
                  (fsub A (arr_x (pre_loop A M inp) ! 1) (arr_x (pre_loop A M inp) ! 0))"
    using n unfolding pre_loop_def by (subst seed_fields(3)) (simp add: m z del: replicate.simps)
qed

lemma main_solved:
  assumes "accepted inp" "granted M"
  shows "main A M inp =
     (case report (in_usr_iters inp) (solved A M inp) of
        Inl f \<Rightarrow> Inl f
      | Inr o4 \<Rightarrow> Inr \<lparr>printed = o4, status = EXIT_SUCCESS, heap = [Freed, Freed, Freed, Freed]\<rparr>)"
  using assms by (simp add: main_def accepted_def granted_def malloc_def Let_def split: sum.split)

lemma solved_last:
  assumes "accepted inp" "granted M"
  shows "\<exists>last pre. executes A M inp last pre \<and>
     loop_inv (nat (in_usr_iters inp)) last pre \<and>
     solved A M inp = snd (muller_body A (tolerance A (in_n inp)) last pre) \<and>
     (fst (muller_body A (tolerance A (in_n inp)) last pre) \<or> last + 1 = nat (in_usr_iters inp))"
proof -
  let ?n = "nat (in_usr_iters inp)" and ?tol = "tolerance A (in_n inp)"
  have n: "2 < ?n" using usr_nat [OF assms(1)] by simp
  have e0: "entry_state A ?tol (pre_loop A M inp) 0 = Some (pre_loop A M inp)" by simp
  obtain k st where k: "k + 2 < ?n" and e: "entry_state A ?tol (pre_loop A M inp) k = Some st"
    and fin: "muller_loop A ?tol ?n 2 (pre_loop A M inp) = snd (muller_body A ?tol (k + 2) st)"
    and stop: "fst (muller_body A ?tol (k + 2) st) \<or> k + 3 = ?n"
    using loop_last_from [OF n _ e0, of ] by auto
  have "executes A M inp (k + 2) st"
    using k e by (simp add: executes_def)
  moreover have "loop_inv ?n (k + 2) st"
    using entry_inv [OF pre_loop_inv [OF assms] e] k by simp
  moreover have "solved A M inp = snd (muller_body A ?tol (k + 2) st)"
    using fin by (simp add: solved_def)
  moreover have "fst (muller_body A ?tol (k + 2) st) \<or> k + 2 + 1 = ?n"
    using stop by (simp add: eval_nat_numeral)
  ultimately show ?thesis by blast
qed

lemma executes_inv:
  assumes "accepted inp" "granted M" "executes A M inp i pre"
  shows "loop_inv (nat (in_usr_iters inp)) i pre"
proof -
  from assms(3) have i: "2 \<le> i" "i < nat (in_usr_iters inp)"
    and e: "entry_state A (tolerance A (in_n inp)) (pre_loop A M inp) (i - 2) = Some pre"
    by (simp_all add: executes_def)
  have eq: "i - 2 + 2 = i" using i by simp
  have "loop_inv (nat (in_usr_iters inp)) (i - 2 + 2) pre"
    using entry_inv [OF pre_loop_inv [OF assms(1,2)] e] i by simp
  then show ?thesis unfolding eq .
qed

section \<open>Passes of the loop\<close>

lemma entry_none_add:
  "entry_state A tol st0 k = None \<Longrightarrow> entry_state A tol st0 (k + m) = None"
  by (induction m) simp_all

lemma entry_none_later:
  "entry_state A tol st0 k = None \<Longrightarrow> k \<le> k' \<Longrightarrow> entry_state A tol st0 k' = None"
  using entry_none_add [of A tol st0 k "k' - k"] by simp

lemma entry_break_next:
  assumes "entry_state A tol st0 k = Some st" "fst (muller_body A tol (k + 2) st)"
  shows "entry_state A tol st0 (Suc k) = None"
  unfolding entry_state.simps assms(1) using assms(2) by (simp add: Let_def)

lemma entry_after_break:
  assumes "entry_state A tol st0 k = Some st" "fst (muller_body A tol (k + 2) st)" "k < k'"
  shows "entry_state A tol st0 k' = None"
proof -
  have "Suc k \<le> k'" using assms(3) by simp
  then show ?thesis
    by (rule entry_none_later [OF entry_break_next [OF assms(1,2)]])
qed

lemma executes_break_last:
  assumes "executes A M inp i pre" "fst (muller_body A (tolerance A (in_n inp)) i pre)"
    "executes A M inp j pre'"
  shows "j \<le> i"
proof (rule ccontr)
  assume "\<not> j \<le> i"
  moreover have "2 \<le> i" using assms(1) by (simp add: executes_def)
  ultimately have lt: "i - 2 < j - 2" by arith
  have "2 \<le> i" using assms(1) by (simp add: executes_def)
  then have "i - 2 + 2 = i" by arith
  then have b: "fst (muller_body A (tolerance A (in_n inp)) (i - 2 + 2) pre)"
    using assms(2) by simp
  have e: "entry_state A (tolerance A (in_n inp)) (pre_loop A M inp) (i - 2) = Some pre"
    using assms(1) by (simp add: executes_def)
  have "entry_state A (tolerance A (in_n inp)) (pre_loop A M inp) (j - 2) = None"
    by (rule entry_after_break [OF e b lt])
  with assms(3) show False by (simp add: executes_def)
qed

lemma executes_fun:
  "executes A M inp i pre \<Longrightarrow> executes A M inp i pre' \<Longrightarrow> pre' = pre"
  by (simp add: executes_def)

text \<open>The run that reaches the solve, from the last pass of its loop to the end of
  \<^verbatim>\<open>main\<close>.\<close>

lemma run_summary:
  assumes "accepted inp" "granted M"
  shows "\<exists>last pre. executes A M inp last pre \<and>
     loop_inv (nat (in_usr_iters inp)) last pre \<and>
     solved A M inp = snd (muller_body A (tolerance A (in_n inp)) last pre) \<and>
     iters (solved A M inp) = Some last \<and>
     find_root (solved A M inp) = fst (muller_body A (tolerance A (in_n inp)) last pre) \<and>
     (find_root (solved A M inp) \<or> last + 1 = nat (in_usr_iters inp)) \<and>
     (\<forall>j pre'. executes A M inp j pre' \<longrightarrow> j \<le> last) \<and>
     main A M inp =
       Inr \<lparr>printed = prompts
               @ (if find_root (solved A M inp) then [Str msg_converged, Endl]
                  else [Str msg_not_reached, Endl])
               @ [Endl] @ table_header @ table_rows (solved A M inp) last,
            status = EXIT_SUCCESS, heap = [Freed, Freed, Freed, Freed]\<rparr>"
proof -
  let ?n = "nat (in_usr_iters inp)" and ?tol = "tolerance A (in_n inp)"
  obtain last pre where ex: "executes A M inp last pre"
    and inv: "loop_inv ?n last pre"
    and fin: "solved A M inp = snd (muller_body A ?tol last pre)"
    and stop: "fst (muller_body A ?tol last pre) \<or> last + 1 = ?n"
    using solved_last [OF assms] by blast
  have it: "iters (solved A M inp) = Some last"
    by (simp add: fin body_iters)
  have fr: "find_root (solved A M inp) = fst (muller_body A ?tol last pre)"
    using inv by (simp add: fin body_find_root loop_inv_def)
  have ou: "out (solved A M inp) =
      prompts @ (if find_root (solved A M inp) then [Str msg_converged, Endl] else [])"
    using inv unfolding fr by (simp add: fin body_out loop_inv_def)
  have mx: "j \<le> last" if "executes A M inp j pre'" for j pre'
  proof (cases "fst (muller_body A ?tol last pre)")
    case True
    then show ?thesis using executes_break_last [OF ex _ that] by simp
  next
    case False
    with stop have "last + 1 = ?n" by simp
    then show ?thesis using that by (simp add: executes_def)
  qed
  have ge: "in_usr_iters inp - 1 \<le> int last" if "\<not> find_root (solved A M inp)"
    using that stop fr by auto
  have rp: "report (in_usr_iters inp) (solved A M inp) =
      Inr (prompts
             @ (if find_root (solved A M inp) then [Str msg_converged, Endl]
                else [Str msg_not_reached, Endl])
             @ [Endl] @ table_header @ table_rows (solved A M inp) last)"
    using ge by (simp add: report_def it ou)
  have "main A M inp =
       Inr \<lparr>printed = prompts
               @ (if find_root (solved A M inp) then [Str msg_converged, Endl]
                  else [Str msg_not_reached, Endl])
               @ [Endl] @ table_header @ table_rows (solved A M inp) last,
            status = EXIT_SUCCESS, heap = [Freed, Freed, Freed, Freed]\<rparr>"
    by (simp add: main_solved [OF assms] rp)
  moreover have "find_root (solved A M inp) \<or> last + 1 = ?n"
    using stop fr by simp
  moreover have "\<forall>j pre'. executes A M inp j pre' \<longrightarrow> j \<le> last"
    using mx by blast
  moreover note ex inv fin it fr
  ultimately show ?thesis
    by (intro exI [of _ last] exI [of _ pre] conjI) assumption+
qed

section \<open>What a run prints\<close>

lemma msgs_differ: "msg_converged \<noteq> msg_not_reached"
  by (simp add: msg_converged_def msg_not_reached_def)

lemma count_prompts:
  "count_list prompts (Str msg_converged) = 0" "count_list prompts (Str msg_not_reached) = 0"
  by (simp_all add: prompts_def banner_def msg_converged_def msg_not_reached_def)

lemma count_header:
  "count_list table_header (Str msg_converged) = 0"
  "count_list table_header (Str msg_not_reached) = 0"
  by (simp_all add: table_header_def ljust_def msg_converged_def msg_not_reached_def)

lemma count_rows: "count_list (table_rows st k) (Str m) = 0"
  by (auto simp: count_list_0_iff table_rows_def)

lemma rows_prompts: "filter is_row prompts = []"
  by (simp add: prompts_def is_row_def)

lemma rows_header: "filter is_row table_header = []"
  by (simp add: table_header_def is_row_def)

lemma rows_rows: "filter is_row (table_rows st k) = table_rows st k"
  by (simp add: table_rows_def is_row_def)

lemma length_rows: "length (table_rows st k) = k + 1"
  by (simp add: table_rows_def)

lemma transcript_counts:
  "count_list (transcript conv st k) (Str msg_converged) = (if conv then 1 else 0)"
  "count_list (transcript conv st k) (Str msg_not_reached) = (if conv then 0 else 1)"
  using msgs_differ
  by (auto simp: transcript_def count_prompts count_header count_rows)

lemma in_set_count: "x \<in> set xs \<longleftrightarrow> count_list xs x \<noteq> 0"
  by (simp add: count_list_0_iff)

lemma transcript_member:
  "Str msg_converged \<in> set (transcript conv st k) \<longleftrightarrow> conv"
  "Str msg_not_reached \<in> set (transcript conv st k) \<longleftrightarrow> \<not> conv"
  by (simp_all add: in_set_count transcript_counts)

lemma transcript_rows: "filter is_row (transcript conv st k) = table_rows st k"
  by (simp add: transcript_def rows_prompts rows_header rows_rows is_row_def)

lemma run_transcript:
  assumes "accepted inp" "granted M"
  shows "\<exists>last pre. executes A M inp last pre \<and>
     loop_inv (nat (in_usr_iters inp)) last pre \<and>
     solved A M inp = snd (muller_body A (tolerance A (in_n inp)) last pre) \<and>
     iters (solved A M inp) = Some last \<and>
     find_root (solved A M inp) = fst (muller_body A (tolerance A (in_n inp)) last pre) \<and>
     (find_root (solved A M inp) \<or> last + 1 = nat (in_usr_iters inp)) \<and>
     (\<forall>j pre'. executes A M inp j pre' \<longrightarrow> j \<le> last) \<and>
     main A M inp =
       Inr \<lparr>printed = transcript (find_root (solved A M inp)) (solved A M inp) last,
            status = EXIT_SUCCESS, heap = [Freed, Freed, Freed, Freed]\<rparr>"
  using run_summary [OF assms, of A] unfolding transcript_def .

text \<open>What the pass at index \<open>i\<close> leaves in the arrays.\<close>

lemma pass_values:
  assumes "accepted inp" "granted M" "executes A M inp i pre"
  defines "post \<equiv> snd (muller_body A (tolerance A (in_n inp)) i pre)"
  shows "i + 1 < length (arr_x post)"
    and "length (arr_x post) = nat (in_usr_iters inp) + 1"
    and "arr_c post ! (i - 1) =
           fdiv A (fsub A (arr_y post ! i) (arr_y post ! (i - 1)))
                  (fsub A (arr_x post ! i) (arr_x post ! (i - 1)))"
    and "arr_d post ! (i - 2) =
           fdiv A (fsub A (arr_c post ! (i - 1)) (arr_c post ! (i - 2)))
                  (fsub A (arr_x post ! i) (arr_x post ! (i - 2)))"
    and "arr_x post ! (i + 1) =
           next_x A (arr_x post ! i) (arr_y post ! i)
             (fadd A (arr_c post ! (i - 1))
                (fmul A (fsub A (arr_x post ! i) (arr_x post ! (i - 1))) (arr_d post ! (i - 2))))
             (arr_d pre ! i)"
    and "arr_y post ! (i + 1) = function_f A (arr_x post ! (i + 1))"
    and "arr_d pre ! i = 0"
    and "arr_d post ! i = 0"
    and "arr_d post ! (i - 1) = 0"
    and "arr_c post ! i = 0"
proof -
  let ?n = "nat (in_usr_iters inp)"
  from assms(3) have i: "2 \<le> i" "i < ?n" by (simp_all add: executes_def)
  have inv: "loop_inv ?n i pre" by (rule executes_inv [OF assms(1-3)])
  then have len: "length (arr_x pre) = ?n + 1" "length (arr_y pre) = ?n + 1"
    "length (arr_d pre) = ?n + 1" "length (arr_c pre) = ?n + 1"
    and d0: "\<And>j. i - 2 \<le> j \<Longrightarrow> j \<le> ?n \<Longrightarrow> arr_d pre ! j = 0"
    and c0: "\<And>j. i - 1 \<le> j \<Longrightarrow> j \<le> ?n \<Longrightarrow> arr_c pre ! j = 0"
    by (simp_all add: loop_inv_def)
  have di: "arr_d pre ! i = 0" using d0 [of i] i by simp
  have di1: "arr_d pre ! (i - 1) = 0" using d0 [of "i - 1"] i by simp
  have ci: "arr_c pre ! i = 0" using c0 [of i] i by simp
  have x_old: "arr_x post ! j = arr_x pre ! j" if "j \<le> i" for j
    using that by (simp add: post_def body_arr_x)
  have y_old: "arr_y post ! j = arr_y pre ! j" if "j \<le> i" for j
    using that by (simp add: post_def body_arr_y)
  show "i + 1 < length (arr_x post)" "length (arr_x post) = ?n + 1"
    using i len by (simp_all add: post_def body_arr_x)
  show "arr_c post ! (i - 1) =
      fdiv A (fsub A (arr_y post ! i) (arr_y post ! (i - 1)))
             (fsub A (arr_x post ! i) (arr_x post ! (i - 1)))"
    using i len by (simp add: x_old y_old) (simp add: post_def body_arr_c)
  show "arr_d post ! (i - 2) =
      fdiv A (fsub A (arr_c post ! (i - 1)) (arr_c post ! (i - 2)))
             (fsub A (arr_x post ! i) (arr_x post ! (i - 2)))"
    using i len unfolding post_def by (simp add: x_old [unfolded post_def]) (subst body_arr_d, simp)
  show "arr_x post ! (i + 1) =
      next_x A (arr_x post ! i) (arr_y post ! i)
        (fadd A (arr_c post ! (i - 1))
           (fmul A (fsub A (arr_x post ! i) (arr_x post ! (i - 1))) (arr_d post ! (i - 2))))
        (arr_d pre ! i)"
    using i len unfolding post_def
    by (simp add: x_old [unfolded post_def] y_old [unfolded post_def])
       (subst body_arr_x, simp add: body_arr_d [of A _ i pre])
  show "arr_y post ! (i + 1) = function_f A (arr_x post ! (i + 1))"
    using i len unfolding post_def by (subst body_arr_y) simp
  show "arr_d pre ! i = 0" by (rule di)
  show "arr_d post ! i = 0"
    using i di by (simp add: post_def body_arr_d)
  show "arr_d post ! (i - 1) = 0"
    using i di1 by (simp add: post_def body_arr_d)
  show "arr_c post ! i = 0"
    using i ci by (simp add: post_def body_arr_c)
qed

section \<open>The runs that end before the solve\<close>

lemma alloc_failure_exit:
  assumes "accepted inp" "\<not> granted M"
  shows "main A M inp =
     Inr \<lparr>printed = prompts @ [Str ''Dynamic memory allocation problem ('',
                                 Num ((in_usr_iters inp + 1) * 8), Str '' bytes).'', Endl],
          status = EXIT_FAILURE,
          heap = [malloc M 0 (nat (in_usr_iters inp + 1)), malloc M 1 (nat (in_usr_iters inp + 1)),
                  malloc M 2 (nat (in_usr_iters inp + 1)), malloc M 3 (nat (in_usr_iters inp + 1))]\<rparr>"
  using assms
  by (auto simp: main_def accepted_def granted_def malloc_def Let_def prompts_def arr_size_def)

lemma exit_codes: "EXIT_FAILURE \<noteq> 0" "EXIT_FAILURE \<noteq> EXIT_SUCCESS"
  by (simp_all add: EXIT_FAILURE_def EXIT_SUCCESS_def)

lemma reject_duplicate:
  "deq (in_x0 inp) (in_x1 inp) \<Longrightarrow>
   main A M inp =
     Inr \<lparr>printed = [Str banner, Endl, Endl, Str ''Input point x0: '', Str ''Input point x1: '',
                     Endl, Str ''Values x0, x1 should be different.'', Endl],
          status = EXIT_FAILURE, heap = [Null, Null, Null, Null]\<rparr>"
  by (simp add: main_def msg_different_def)

lemma reject_iterations:
  "\<not> deq (in_x0 inp) (in_x1 inp) \<Longrightarrow> in_usr_iters inp \<le> 2 \<or> 1000000 < in_usr_iters inp \<Longrightarrow>
   main A M inp =
     Inr \<lparr>printed = [Str banner, Endl, Endl, Str ''Input point x0: '', Str ''Input point x1: '',
                     Str ''Iterations: '',
                     Endl, Str ''Iterations value: 2<i<='', Num 1000000, Endl],
          status = EXIT_FAILURE, heap = [Null, Null, Null, Null]\<rparr>"
  by (auto simp: main_def msg_iterations_def MAX_ITERATIONS_def)

lemma reject_tolerance:
  "\<not> deq (in_x0 inp) (in_x1 inp) \<Longrightarrow> 2 < in_usr_iters inp \<Longrightarrow> in_usr_iters inp \<le> 1000000 \<Longrightarrow>
   in_n inp \<le> 0 \<or> 40 < in_n inp \<Longrightarrow>
   main A M inp =
     Inr \<lparr>printed = [Str banner, Endl, Endl, Str ''Input point x0: '', Str ''Input point x1: '',
                     Str ''Iterations: '', Str ''Tolerance: '',
                     Endl, Str ''Tolerance value: 0<t<='', Num 40, Endl],
          status = EXIT_FAILURE, heap = [Null, Null, Null, Null]\<rparr>"
  by (auto simp: main_def msg_tolerance_def MAX_ITERATIONS_def MAX_TOLERANCES_def)

lemma accepted_iff:
  "accepted inp \<longleftrightarrow>
     \<not> deq (in_x0 inp) (in_x1 inp) \<and> 2 < in_usr_iters inp \<and> in_usr_iters inp \<le> 1000000 \<and>
     0 < in_n inp \<and> in_n inp \<le> 40"
  by (simp add: accepted_def MAX_ITERATIONS_def MAX_TOLERANCES_def)

lemma exit_status_cases:
  "exit_status (main A M inp) =
     (if accepted inp \<and> granted M then Some EXIT_SUCCESS else Some EXIT_FAILURE)"
proof (cases "accepted inp")
  case True
  show ?thesis
  proof (cases "granted M")
    case g: True
    then show ?thesis
      using run_transcript [OF True g, of A] True by (auto simp: exit_status_def)
  next
    case False
    then show ?thesis
      using True by (simp add: alloc_failure_exit exit_status_def)
  qed
next
  case False
  then consider "deq (in_x0 inp) (in_x1 inp)"
    | "\<not> deq (in_x0 inp) (in_x1 inp)" "in_usr_iters inp \<le> 2 \<or> 1000000 < in_usr_iters inp"
    | "\<not> deq (in_x0 inp) (in_x1 inp)" "2 < in_usr_iters inp" "in_usr_iters inp \<le> 1000000"
      "in_n inp \<le> 0 \<or> 40 < in_n inp"
    unfolding accepted_iff by linarith
  then show ?thesis
  proof cases
    case 1
    then show ?thesis using False by (simp add: reject_duplicate exit_status_def)
  next
    case 2
    then show ?thesis using False by (simp add: reject_iterations exit_status_def)
  next
    case 3
    then show ?thesis using False by (simp add: reject_tolerance exit_status_def)
  qed
qed

section \<open>Concrete runs\<close>

lemma near_accepted: "accepted near_input"
  by code_simp

lemma example_accepted: "accepted example_input"
  by code_simp


lemma duplicate_equal: "deq (in_x0 duplicate_input) (in_x1 duplicate_input)"
  by code_simp

lemma all_granted: "granted malloc_all"
  by (simp add: granted_def malloc_all_def)

lemma two_not_granted: "\<not> granted malloc_two"
  by (simp add: granted_def malloc_two_def)

lemma near_executes:
  "executes A M near_input 2 (pre_loop A M near_input)"
  by (simp add: executes_def near_input_def)

text \<open>The source's first example. Its header comment gives the output as
  \<^verbatim>\<open>Root x = +1.122462048309e+00\<close>: the run converges in the pass at index 9, and the
  \<open>x\<close> of the last of its ten rows lies between 1.1224620483085 and 1.1224620483095,
  so that \<^verbatim>\<open>%+022.12e\<close> shows it with these digits.\<close>

lemma example_run:
  "main fpu_ieee malloc_all example_input =
     Inr \<lparr>printed = prompts @ [Str msg_converged, Endl, Endl] @ table_header @
       [Row 1 0x3FF0000000000000 0xBFF0000000000000 0x40551C0000000000 0x404F800000000000,
        Row 2 0x4000000000000000 0x404F000000000000 0x405ACD323305A625 0x405A4E0000000000,
        Row 3 0x3FF8000000000000 0x4022C80000000000 0x4047FEBA80BA6044 0x4041D160BD8375E7,
        Row 4 0x3FF59D75D75D75D7 0x401050BCE51FAED3 0x403FD41DB5160B45 0x4032862048DE91C6,
        Row 5 0x3FF24B7CE4976172 0x3FCE10F8137234D0 0x40383C132538192F 0x402617ACD8D9A388,
        Row 6 0x3FF1DB293D2B952E 0xBFB16AADCE6202C0 0x4037A2BF0E6FF576 0x40251660FB4BD8C7,
        Row 7 0x3FF1F68D8A35F08C 0x3F6449972C7B3800 0x4037D14C769486EC 0x40256481F3482667,
        Row 8 0x3FF1F59AFACD504E 0x3EC261C6C5500000 0xC07150EF774F8CAE 0x402561AF293B635D,
        Row 9 0x3FF1F59AC3C7E695 0x3DA5288000000000 0 0x402561B69ABFE3B4,
        Row 10 0x3FF1F59AC3C7D6C0 0x3CC0000000000000 0 0],
       status = EXIT_SUCCESS, heap = [Freed, Freed, Freed, Freed]\<rparr>"
  by code_simp

lemma example_root:
  "dlt 0x3FF1F59AC3C7C764 0x3FF1F59AC3C7D6C0" "dlt 0x3FF1F59AC3C7D6C0 0x3FF1F59AC3C7D8FC"
  by code_simp+

text \<open>The run from 1 and 1.25 converges in its only pass.\<close>

lemma near_run:
  "main fpu_ieee malloc_all near_input =
     Inr \<lparr>printed = prompts @ [Str msg_converged, Endl, Endl] @ table_header @
       [Row 1 0x3FF0000000000000 0xBFF0000000000000 0x403852F000000000 0x4026848000000000,
        Row 2 0x3FF4000000000000 0x3FFD090000000000 0 0x402C993C00000000,
        Row 3 0x3FF2000000000000 0x3F9BF10000000000 0 0],
       status = EXIT_SUCCESS, heap = [Freed, Freed, Freed, Freed]\<rparr>"
  by code_simp


text \<open>The run from 3e51 and -1e51: \<open>y[0]\<close> overflows to \<open>+infinity\<close>, and so do
  \<open>c[0]\<close> and, in the pass at index 2, \<open>d[0]\<close> and \<open>s\<close>. The quotient
  \<open>2 * y[2] / (s + ...)\<close> is then 0 and \<open>x[3] = x[2]\<close>: the step is 0, the test
  succeeds, and the loop ends in its first pass with the convergence message, at a point
  where \<open>f\<close> is about \<open>1e306\<close>.\<close>

lemma overflow_accepted: "accepted overflow_input"
  by code_simp

lemma overflow_executes:
  "executes A M overflow_input 2 (pre_loop A M overflow_input)"
  by (simp add: executes_def overflow_input_def)

lemma overflow_run:
  "main fpu_ieee malloc_all overflow_input =
     Inr \<lparr>printed = prompts @ [Str msg_converged, Endl, Endl] @ table_header @
       [Row 1 0x4AA0095DD9267E50 0x7FF0000000000000 0x7FF0000000000000 0x7FF0000000000000,
        Row 2 0xCA8561D276DDFDC0 0x7F76C8E5CA239029 0 0,
        Row 3 0x4A8561D276DDFDC0 0x7F76C8E5CA239029 0 0],
       status = EXIT_SUCCESS, heap = [Freed, Freed, Freed, Freed]\<rparr>"
  by code_simp

lemma overflow_pass:
  "arr_y (pre_loop fpu_ieee malloc_all overflow_input) ! 0 = 0x7FF0000000000000"
  "arr_c (pre_loop fpu_ieee malloc_all overflow_input) ! 0 = 0x7FF0000000000000"
  "(let post = snd (muller_body fpu_ieee (tolerance fpu_ieee (in_n overflow_input)) 2
                     (pre_loop fpu_ieee malloc_all overflow_input));
        s = fadd fpu_ieee (arr_c post ! 1)
              (fmul fpu_ieee (fsub fpu_ieee (arr_x post ! 2) (arr_x post ! 1)) (arr_d post ! 0))
    in arr_d post ! 0 = 0x7FF0000000000000 \<and> s = 0x7FF0000000000000 \<and>
       arr_x post ! 3 = arr_x post ! 2 \<and>
       fsub fpu_ieee (arr_x post ! 3) (arr_x post ! 2) = 0)"
  "fst (muller_body fpu_ieee (tolerance fpu_ieee (in_n overflow_input)) 2
          (pre_loop fpu_ieee malloc_all overflow_input))"
  by code_simp+

section \<open>The claims\<close>

text \<open>
  C1. In every run that reaches the solve, every executed pass of the loop, at an index
  \<open>i\<close> with \<open>2 \<le> i < usr_iters\<close>, leaves the arrays with
  \<open>c[i-1] = (y[i] - y[i-1]) / (x[i] - x[i-1])\<close>,
  \<open>d[i-2] = (c[i-1] - c[i-2]) / (x[i] - x[i-2])\<close> and, for
  \<open>s = c[i-1] + (x[i] - x[i-1]) * d[i-2]\<close>,
  \<open>x[i+1] = x[i] - 2*y[i] / (s + sign(s) * sqrt(|s^2 - 4*y[i]*d[i]|))\<close> and
  \<open>y[i+1] = x[i+1]^6 - 2\<close>. The discriminant reads the slot \<open>d[i]\<close> of the history
  array, not the \<open>d[i-2]\<close> just computed; that slot is not written by this pass and
  holds the zero it was initialised with (the pass that writes it is the one at index
  \<open>i + 2\<close>). All the indices lie inside the arrays.
\<close>

theorem muller_step_formulas:
  assumes "accepted inp" "granted M" "executes A M inp i pre"
  shows "let post = snd (muller_body A (tolerance A (in_n inp)) i pre);
             x = arr_x post; y = arr_y post; d = arr_d post; c = arr_c post;
             s = fadd A (c ! (i - 1)) (fmul A (fsub A (x ! i) (x ! (i - 1))) (d ! (i - 2)))
         in i + 1 < length x \<and>
            c ! (i - 1) = fdiv A (fsub A (y ! i) (y ! (i - 1))) (fsub A (x ! i) (x ! (i - 1))) \<and>
            d ! (i - 2) = fdiv A (fsub A (c ! (i - 1)) (c ! (i - 2))) (fsub A (x ! i) (x ! (i - 2))) \<and>
            x ! (i + 1) =
              fsub A (x ! i)
                (fdiv A (fmul A (int_to_double 2) (y ! i))
                   (fadd A s
                      (fmul A (int_to_double (sign s))
                         (fsqrt A (fabs (fsub A (fpow A s 2)
                            (fmul A (fmul A (int_to_double 4) (y ! i)) (arr_d pre ! i)))))))) \<and>
            arr_d pre ! i = int_to_double 0 \<and>
            d ! i = arr_d pre ! i \<and>
            y ! (i + 1) = fsub A (fpow A (x ! (i + 1)) 6) (int_to_double 2)"
proof -
  note v = pass_values [OF assms]
  show ?thesis
    unfolding Let_def
    using v(1) v(3) v(4) v(5) [unfolded next_x_def] v(7) v(8) v(6) [unfolded function_f_def]
    by (simp add: int_to_double_0)
qed

theorem muller_step_formulas_witness:
  "accepted near_input \<and> granted malloc_all \<and>
   executes fpu_ieee malloc_all near_input 2 (pre_loop fpu_ieee malloc_all near_input) \<and>
   (let post = snd (muller_body fpu_ieee (tolerance fpu_ieee (in_n near_input)) 2 (pre_loop fpu_ieee malloc_all near_input));
             x = arr_x post; y = arr_y post; d = arr_d post; c = arr_c post;
             s = fadd fpu_ieee (c ! (2 - 1)) (fmul fpu_ieee (fsub fpu_ieee (x ! 2) (x ! (2 - 1))) (d ! (2 - 2)))
         in 2 + 1 < length x \<and>
            c ! (2 - 1) = fdiv fpu_ieee (fsub fpu_ieee (y ! 2) (y ! (2 - 1))) (fsub fpu_ieee (x ! 2) (x ! (2 - 1))) \<and>
            d ! (2 - 2) = fdiv fpu_ieee (fsub fpu_ieee (c ! (2 - 1)) (c ! (2 - 2))) (fsub fpu_ieee (x ! 2) (x ! (2 - 2))) \<and>
            x ! (2 + 1) =
              fsub fpu_ieee (x ! 2)
                (fdiv fpu_ieee (fmul fpu_ieee (int_to_double 2) (y ! 2))
                   (fadd fpu_ieee s
                      (fmul fpu_ieee (int_to_double (sign s))
                         (fsqrt fpu_ieee (fabs (fsub fpu_ieee (fpow fpu_ieee s 2)
                            (fmul fpu_ieee (fmul fpu_ieee (int_to_double 4) (y ! 2)) (arr_d (pre_loop fpu_ieee malloc_all near_input) ! 2)))))))) \<and>
            arr_d (pre_loop fpu_ieee malloc_all near_input) ! 2 = int_to_double 0 \<and>
            d ! 2 = arr_d (pre_loop fpu_ieee malloc_all near_input) ! 2 \<and>
            y ! (2 + 1) = fsub fpu_ieee (fpow fpu_ieee (x ! (2 + 1)) 6) (int_to_double 2))"
  using near_accepted all_granted near_executes [of fpu_ieee malloc_all]
    muller_step_formulas [OF near_accepted all_granted near_executes [of fpu_ieee malloc_all]]
  by (intro conjI) assumption+

text \<open>
  C2. In every run that reaches the solve, when control reaches the loop:
  \<open>tol = 0.5 * pow (10, -n)\<close> for the tolerance digits \<open>n\<close> that were read;
  \<open>x[0]\<close> and \<open>x[1]\<close> are the two points that were read and \<open>x[2] = (x[0] + x[1]) / 2\<close>;
  \<open>y[0]\<close>, \<open>y[1]\<close>, \<open>y[2]\<close> are \<open>f\<close> of \<open>x[0]\<close>, \<open>x[1]\<close>, \<open>x[2]\<close> for
  \<open>f(x) = x^6 - 2\<close>; and \<open>c[0] = (y[1] - y[0]) / (x[1] - x[0])\<close>. The loop starts
  at index 2 from this state and with this tolerance.
\<close>

theorem seeding_before_loop:
  assumes "accepted inp" "granted M"
  shows "let st = pre_loop A M inp; tol = tolerance A (in_n inp)
         in solved A M inp = muller_loop A tol (nat (in_usr_iters inp)) 2 st \<and>
            tol = fmul A d_half (fpow A (int_to_double 10) (- in_n inp)) \<and>
            arr_x st ! 0 = in_x0 inp \<and>
            arr_x st ! 1 = in_x1 inp \<and>
            arr_x st ! 2 = fdiv A (fadd A (arr_x st ! 0) (arr_x st ! 1)) (int_to_double 2) \<and>
            arr_y st ! 0 = fsub A (fpow A (arr_x st ! 0) 6) (int_to_double 2) \<and>
            arr_y st ! 1 = fsub A (fpow A (arr_x st ! 1) 6) (int_to_double 2) \<and>
            arr_y st ! 2 = fsub A (fpow A (arr_x st ! 2) 6) (int_to_double 2) \<and>
            arr_c st ! 0 = fdiv A (fsub A (arr_y st ! 1) (arr_y st ! 0))
                                  (fsub A (arr_x st ! 1) (arr_x st ! 0))"
  unfolding Let_def
  using pre_loop_values [OF assms, of A]
  by (simp add: solved_def tolerance_def function_f_def)

theorem seeding_before_loop_witness:
  "accepted example_input \<and> granted malloc_all \<and>
   (let st = pre_loop fpu_ieee malloc_all example_input; tol = tolerance fpu_ieee (in_n example_input)
         in solved fpu_ieee malloc_all example_input = muller_loop fpu_ieee tol (nat (in_usr_iters example_input)) 2 st \<and>
            tol = fmul fpu_ieee d_half (fpow fpu_ieee (int_to_double 10) (- in_n example_input)) \<and>
            arr_x st ! 0 = in_x0 example_input \<and>
            arr_x st ! 1 = in_x1 example_input \<and>
            arr_x st ! 2 = fdiv fpu_ieee (fadd fpu_ieee (arr_x st ! 0) (arr_x st ! 1)) (int_to_double 2) \<and>
            arr_y st ! 0 = fsub fpu_ieee (fpow fpu_ieee (arr_x st ! 0) 6) (int_to_double 2) \<and>
            arr_y st ! 1 = fsub fpu_ieee (fpow fpu_ieee (arr_x st ! 1) 6) (int_to_double 2) \<and>
            arr_y st ! 2 = fsub fpu_ieee (fpow fpu_ieee (arr_x st ! 2) 6) (int_to_double 2) \<and>
            arr_c st ! 0 = fdiv fpu_ieee (fsub fpu_ieee (arr_y st ! 1) (arr_y st ! 0))
                                  (fsub fpu_ieee (arr_x st ! 1) (arr_x st ! 0)))"
  using example_accepted all_granted
    seeding_before_loop [OF example_accepted all_granted, of fpu_ieee]
  by (intro conjI) assumption+

text \<open>
  C3, as amended. The program ends with the failure status before it runs the solve if
  and only if one of the three checks fails or one of the four allocations fails. The
  checks are made in this order: \<open>x0 == x1\<close>, before the iterations prompt is printed;
  the iteration count outside \<open>(2, 1000000]\<close>, before the tolerance prompt is printed;
  the tolerance digits outside \<open>(0, 40]\<close>. Each failure prints its own message and all
  end with the same nonzero status. With distinct points and memory granted, iterations
  3 and 1000000 and tolerances 1 and 40 are accepted; iterations 2 and 1000001 and
  tolerances 0 and 41 are rejected. A run that ends with the failure status ends the
  same way under every arithmetic: no floating-point operation has been executed.
\<close>

theorem failure_before_solve:
  "(exit_status (main A M inp) = Some EXIT_FAILURE \<longleftrightarrow>
      deq (in_x0 inp) (in_x1 inp) \<or>
      in_usr_iters inp \<le> 2 \<or> 1000000 < in_usr_iters inp \<or>
      in_n inp \<le> 0 \<or> 40 < in_n inp \<or>
      \<not> granted M) \<and>
   EXIT_FAILURE \<noteq> 0 \<and>
   (deq (in_x0 inp) (in_x1 inp) \<longrightarrow>
      main A M inp =
        Inr \<lparr>printed = [Str banner, Endl, Endl, Str ''Input point x0: '', Str ''Input point x1: '',
                        Endl, Str ''Values x0, x1 should be different.'', Endl],
             status = EXIT_FAILURE, heap = [Null, Null, Null, Null]\<rparr>) \<and>
   (\<not> deq (in_x0 inp) (in_x1 inp) \<and> (in_usr_iters inp \<le> 2 \<or> 1000000 < in_usr_iters inp) \<longrightarrow>
      main A M inp =
        Inr \<lparr>printed = [Str banner, Endl, Endl, Str ''Input point x0: '', Str ''Input point x1: '',
                        Str ''Iterations: '',
                        Endl, Str ''Iterations value: 2<i<='', Num 1000000, Endl],
             status = EXIT_FAILURE, heap = [Null, Null, Null, Null]\<rparr>) \<and>
   (\<not> deq (in_x0 inp) (in_x1 inp) \<and> 2 < in_usr_iters inp \<and> in_usr_iters inp \<le> 1000000 \<and>
    (in_n inp \<le> 0 \<or> 40 < in_n inp) \<longrightarrow>
      main A M inp =
        Inr \<lparr>printed = [Str banner, Endl, Endl, Str ''Input point x0: '', Str ''Input point x1: '',
                        Str ''Iterations: '', Str ''Tolerance: '',
                        Endl, Str ''Tolerance value: 0<t<='', Num 40, Endl],
             status = EXIT_FAILURE, heap = [Null, Null, Null, Null]\<rparr>) \<and>
   (\<not> deq (in_x0 inp) (in_x1 inp) \<and> 2 < in_usr_iters inp \<and> in_usr_iters inp \<le> 1000000 \<and>
    0 < in_n inp \<and> in_n inp \<le> 40 \<and> \<not> granted M \<longrightarrow>
      (\<exists>hp. main A M inp =
        Inr \<lparr>printed = [Str banner, Endl, Endl, Str ''Input point x0: '', Str ''Input point x1: '',
                        Str ''Iterations: '', Str ''Tolerance: '', Endl,
                        Str ''Dynamic memory allocation problem ('',
                        Num ((in_usr_iters inp + 1) * 8), Str '' bytes).'', Endl],
             status = EXIT_FAILURE, heap = hp\<rparr>)) \<and>
   (\<not> deq (in_x0 inp) (in_x1 inp) \<and> granted M \<and>
    in_usr_iters inp \<in> {3, 1000000} \<and> in_n inp \<in> {1, 40} \<longrightarrow>
      exit_status (main A M inp) = Some EXIT_SUCCESS) \<and>
   (in_usr_iters inp \<in> {2, 1000001} \<or> in_n inp \<in> {0, 41} \<longrightarrow>
      exit_status (main A M inp) = Some EXIT_FAILURE) \<and>
   (exit_status (main A M inp) = Some EXIT_FAILURE \<longrightarrow> main A M inp = main A' M inp)"
proof -
  have iff: "exit_status (main A M inp) = Some EXIT_FAILURE \<longleftrightarrow>
      deq (in_x0 inp) (in_x1 inp) \<or>
      in_usr_iters inp \<le> 2 \<or> 1000000 < in_usr_iters inp \<or>
      in_n inp \<le> 0 \<or> 40 < in_n inp \<or> \<not> granted M"
    unfolding exit_status_cases accepted_iff using exit_codes(2) by auto
  have al: "\<exists>hp. main A M inp =
        Inr \<lparr>printed = [Str banner, Endl, Endl, Str ''Input point x0: '', Str ''Input point x1: '',
                        Str ''Iterations: '', Str ''Tolerance: '', Endl,
                        Str ''Dynamic memory allocation problem ('',
                        Num ((in_usr_iters inp + 1) * 8), Str '' bytes).'', Endl],
             status = EXIT_FAILURE, heap = hp\<rparr>"
    if "accepted inp" "\<not> granted M"
    using alloc_failure_exit [OF that, of A] by (simp add: prompts_def)
  have ok: "exit_status (main A M inp) = Some EXIT_SUCCESS"
    if "\<not> deq (in_x0 inp) (in_x1 inp)" "granted M"
      "in_usr_iters inp \<in> {3, 1000000}" "in_n inp \<in> {1, 40}"
    unfolding exit_status_cases accepted_iff using that by auto
  have bad: "exit_status (main A M inp) = Some EXIT_FAILURE"
    if "in_usr_iters inp \<in> {2, 1000001} \<or> in_n inp \<in> {0, 41}"
    unfolding exit_status_cases accepted_iff using that by auto
  have same: "main A M inp = main A' M inp"
    if "exit_status (main A M inp) = Some EXIT_FAILURE"
  proof -
    from that have "\<not> (accepted inp \<and> granted M)"
      unfolding exit_status_cases using exit_codes(2) by auto
    then consider "deq (in_x0 inp) (in_x1 inp)"
      | "\<not> deq (in_x0 inp) (in_x1 inp)" "in_usr_iters inp \<le> 2 \<or> 1000000 < in_usr_iters inp"
      | "\<not> deq (in_x0 inp) (in_x1 inp)" "2 < in_usr_iters inp" "in_usr_iters inp \<le> 1000000"
        "in_n inp \<le> 0 \<or> 40 < in_n inp"
      | "accepted inp" "\<not> granted M"
      unfolding accepted_iff by linarith
    then show ?thesis
    proof cases
      case 1
      then show ?thesis by (simp add: reject_duplicate)
    next
      case 2
      then show ?thesis by (simp add: reject_iterations)
    next
      case 3
      then show ?thesis by (simp add: reject_tolerance)
    next
      case 4
      then show ?thesis by (simp add: alloc_failure_exit)
    qed
  qed
  show ?thesis
    using iff exit_codes(1) reject_duplicate [of inp A M] reject_iterations [of inp A M]
      reject_tolerance [of inp A M] al [unfolded accepted_iff] ok bad same
    by blast
qed

theorem failure_before_solve_witness:
  "deq (in_x0 duplicate_input) (in_x1 duplicate_input) \<and>
   exit_status (main fpu_ieee malloc_all duplicate_input) = Some EXIT_FAILURE \<and>
   main fpu_ieee malloc_all duplicate_input =
     Inr \<lparr>printed = [Str banner, Endl, Endl, Str ''Input point x0: '', Str ''Input point x1: '',
                     Endl, Str ''Values x0, x1 should be different.'', Endl],
          status = EXIT_FAILURE, heap = [Null, Null, Null, Null]\<rparr> \<and>
   in_usr_iters (example_input\<lparr>in_usr_iters := 2\<rparr>) \<in> {2, 1000001} \<and>
   exit_status (main fpu_ieee malloc_all (example_input\<lparr>in_usr_iters := 2\<rparr>)) = Some EXIT_FAILURE \<and>
   in_n (example_input\<lparr>in_n := 41\<rparr>) \<in> {0, 41} \<and>
   exit_status (main fpu_ieee malloc_all (example_input\<lparr>in_n := 41\<rparr>)) = Some EXIT_FAILURE \<and>
   \<not> deq (in_x0 near_input) (in_x1 near_input) \<and> granted malloc_all \<and>
   in_usr_iters near_input \<in> {3, 1000000} \<and> in_n near_input \<in> {1, 40} \<and>
   exit_status (main fpu_ieee malloc_all near_input) = Some EXIT_SUCCESS"
proof -
  have ok: "\<not> deq (in_x0 near_input) (in_x1 near_input)"
    "in_usr_iters near_input \<in> {3, 1000000}" "in_n near_input \<in> {1, 40}"
    using near_accepted by (simp_all add: accepted_def near_input_def)
  have it: "in_usr_iters (example_input\<lparr>in_usr_iters := 2\<rparr>) \<in> {2, 1000001}"
    and tl: "in_n (example_input\<lparr>in_n := 41\<rparr>) \<in> {0, 41}"
    by simp_all
  note dup = failure_before_solve [of fpu_ieee malloc_all duplicate_input]
  note two = failure_before_solve [of fpu_ieee malloc_all "example_input\<lparr>in_usr_iters := 2\<rparr>"]
  note big = failure_before_solve [of fpu_ieee malloc_all "example_input\<lparr>in_n := 41\<rparr>"]
  note sht = failure_before_solve [of fpu_ieee malloc_all near_input]
  have 1: "exit_status (main fpu_ieee malloc_all duplicate_input) = Some EXIT_FAILURE"
    using dup [THEN conjunct1] duplicate_equal by blast
  have 2: "main fpu_ieee malloc_all duplicate_input =
     Inr \<lparr>printed = [Str banner, Endl, Endl, Str ''Input point x0: '', Str ''Input point x1: '',
                     Endl, Str ''Values x0, x1 should be different.'', Endl],
          status = EXIT_FAILURE, heap = [Null, Null, Null, Null]\<rparr>"
    using dup [THEN conjunct2, THEN conjunct2, THEN conjunct1] duplicate_equal by blast
  have 3: "exit_status (main fpu_ieee malloc_all (example_input\<lparr>in_usr_iters := 2\<rparr>))
      = Some EXIT_FAILURE"
    using two [THEN conjunct2, THEN conjunct2, THEN conjunct2, THEN conjunct2,
        THEN conjunct2, THEN conjunct2, THEN conjunct2] it
    by blast
  have 4: "exit_status (main fpu_ieee malloc_all (example_input\<lparr>in_n := 41\<rparr>))
      = Some EXIT_FAILURE"
    using big [THEN conjunct2, THEN conjunct2, THEN conjunct2, THEN conjunct2,
        THEN conjunct2, THEN conjunct2, THEN conjunct2] tl
    by blast
  have 5: "exit_status (main fpu_ieee malloc_all near_input) = Some EXIT_SUCCESS"
    using sht [THEN conjunct2, THEN conjunct2, THEN conjunct2, THEN conjunct2,
        THEN conjunct2, THEN conjunct2, THEN conjunct1] ok all_granted
    by blast
  from duplicate_equal 1 2 it 3 tl 4 ok(1) all_granted ok(2) ok(3) 5 show ?thesis
    by (intro conjI) assumption+
qed

text \<open>The claim as it was stated fails on a run that passes the three checks and is
  refused its memory: it ends with the failure status, before the solve.\<close>

theorem failure_without_violation:
  "main fpu_ieee malloc_none example_input =
     Inr \<lparr>printed = prompts @ [Str ''Dynamic memory allocation problem ('', Num 168,
                                 Str '' bytes).'', Endl],
          status = EXIT_FAILURE, heap = [Null, Null, Null, Null]\<rparr> \<and>
   exit_status (main fpu_ieee malloc_none example_input) = Some EXIT_FAILURE \<and>
   \<not> deq (in_x0 example_input) (in_x1 example_input) \<and>
   2 < in_usr_iters example_input \<and> in_usr_iters example_input \<le> 1000000 \<and>
   0 < in_n example_input \<and> in_n example_input \<le> 40"
  by code_simp

text \<open>
  C4. Every run that reaches the solve prints exactly one of the two outcome messages.
  The convergence message is printed if and only if some executed pass finds
  \<open>|x[i+1] - x[i]| < tol\<close>; that pass is then the last one executed, and the arrays are
  left as it left them. Otherwise the other message is printed, by the test after the
  loop that the last executed index is at least \<open>usr_iters - 1\<close> while the convergence
  flag is false.
\<close>

theorem exactly_one_outcome_message:
  assumes "accepted inp" "granted M"
  shows "\<exists>res last.
     main A M inp = Inr res \<and> iters (solved A M inp) = Some last \<and>
     count_list (printed res) (Str msg_converged)
       + count_list (printed res) (Str msg_not_reached) = 1 \<and>
     (Str msg_converged \<in> set (printed res) \<longleftrightarrow>
        (\<exists>i pre. executes A M inp i pre \<and>
           dlt (fabs (fsub A
                  (arr_x (snd (muller_body A (tolerance A (in_n inp)) i pre)) ! (i + 1))
                  (arr_x (snd (muller_body A (tolerance A (in_n inp)) i pre)) ! i)))
               (tolerance A (in_n inp)))) \<and>
     (\<forall>i pre. executes A M inp i pre \<and>
           dlt (fabs (fsub A
                  (arr_x (snd (muller_body A (tolerance A (in_n inp)) i pre)) ! (i + 1))
                  (arr_x (snd (muller_body A (tolerance A (in_n inp)) i pre)) ! i)))
               (tolerance A (in_n inp)) \<longrightarrow>
        i = last \<and> solved A M inp = snd (muller_body A (tolerance A (in_n inp)) i pre)) \<and>
     (\<forall>j pre. executes A M inp j pre \<longrightarrow> j \<le> last) \<and>
     (Str msg_not_reached \<in> set (printed res) \<longleftrightarrow>
        in_usr_iters inp - 1 \<le> int last \<and> find_root (solved A M inp) = False)"
proof -
  let ?tol = "tolerance A (in_n inp)"
  let ?conv = "\<lambda>i pre. dlt (fabs (fsub A (arr_x (snd (muller_body A ?tol i pre)) ! (i + 1))
                  (arr_x (snd (muller_body A ?tol i pre)) ! i))) ?tol"
  let ?fin = "solved A M inp"
  obtain last pre where ex: "executes A M inp last pre"
    and fin: "?fin = snd (muller_body A ?tol last pre)"
    and it: "iters ?fin = Some last"
    and fr: "find_root ?fin = fst (muller_body A ?tol last pre)"
    and stop: "find_root ?fin \<or> last + 1 = nat (in_usr_iters inp)"
    and mx: "\<forall>j pre'. executes A M inp j pre' \<longrightarrow> j \<le> last"
    and mn: "main A M inp = Inr \<lparr>printed = transcript (find_root ?fin) ?fin last,
            status = EXIT_SUCCESS, heap = [Freed, Freed, Freed, Freed]\<rparr>"
    using run_transcript [OF assms, of A] by blast
  let ?res = "\<lparr>printed = transcript (find_root ?fin) ?fin last,
            status = EXIT_SUCCESS, heap = [Freed, Freed, Freed, Freed]\<rparr>"
  have brk: "fst (muller_body A ?tol i p) = ?conv i p" for i p
    by (rule body_break)
  have one: "count_list (printed ?res) (Str msg_converged)
       + count_list (printed ?res) (Str msg_not_reached) = 1"
    by (simp add: transcript_counts)
  have only: "i = last \<and> ?fin = snd (muller_body A ?tol i p)"
    if "executes A M inp i p" "?conv i p" for i p
  proof -
    have "last \<le> i"
      using executes_break_last [OF that(1) _ ex] that(2) brk by simp
    moreover have "i \<le> last" using mx that(1) by blast
    ultimately have eq: "i = last" by simp
    with that(1) ex have "p = pre" by (simp add: executes_def)
    with eq fin show ?thesis by simp
  qed
  have conv_iff: "Str msg_converged \<in> set (printed ?res) \<longleftrightarrow> find_root ?fin"
    by (simp add: transcript_member)
  have not_iff: "Str msg_not_reached \<in> set (printed ?res) \<longleftrightarrow> \<not> find_root ?fin"
    by (simp add: transcript_member)
  have some: "find_root ?fin \<longleftrightarrow> (\<exists>i p. executes A M inp i p \<and> ?conv i p)"
  proof
    assume "find_root ?fin"
    then have "?conv last pre" using fr brk by simp
    with ex show "\<exists>i p. executes A M inp i p \<and> ?conv i p" by blast
  next
    assume "\<exists>i p. executes A M inp i p \<and> ?conv i p"
    then obtain i p where ip: "executes A M inp i p" "?conv i p" by blast
    have "?fin = snd (muller_body A ?tol i p)" using only [OF ip] by simp
    then have "find_root ?fin = (fst (muller_body A ?tol i p) \<or> find_root p)"
      by (simp add: body_find_root)
    then show "find_root ?fin" using ip(2) brk by simp
  qed
  have ge: "in_usr_iters inp - 1 \<le> int last" if "\<not> find_root ?fin"
    using that stop by auto
  have c1: "Str msg_converged \<in> set (printed ?res) \<longleftrightarrow>
        (\<exists>i p. executes A M inp i p \<and> ?conv i p)"
    using conv_iff some by simp
  have c2: "\<forall>i p. executes A M inp i p \<and> ?conv i p \<longrightarrow>
        i = last \<and> ?fin = snd (muller_body A ?tol i p)"
    using only by blast
  have c3: "Str msg_not_reached \<in> set (printed ?res) \<longleftrightarrow>
        in_usr_iters inp - 1 \<le> int last \<and> find_root ?fin = False"
    using not_iff ge by auto
  from mn it one c1 c2 mx c3 show ?thesis
    by (intro exI [of _ ?res] exI [of _ last] conjI) assumption+
qed

theorem exactly_one_outcome_message_witness:
  "accepted near_input \<and> granted malloc_all \<and>
   (\<exists>res. main fpu_ieee malloc_all near_input = Inr res \<and>
      Str msg_converged \<in> set (printed res) \<and>
      Str msg_not_reached \<notin> set (printed res) \<and>
      count_list (printed res) (Str msg_converged)
        + count_list (printed res) (Str msg_not_reached) = 1) \<and>
   (\<exists>i pre. executes fpu_ieee malloc_all near_input i pre \<and>
      dlt (fabs (fsub fpu_ieee
             (arr_x (snd (muller_body fpu_ieee (tolerance fpu_ieee (in_n near_input)) i pre))
                ! (i + 1))
             (arr_x (snd (muller_body fpu_ieee (tolerance fpu_ieee (in_n near_input)) i pre))
                ! i)))
          (tolerance fpu_ieee (in_n near_input)))"
proof -
  obtain res k where r: "main fpu_ieee malloc_all near_input = Inr res"
    and one: "count_list (printed res) (Str msg_converged)
        + count_list (printed res) (Str msg_not_reached) = 1"
    and conv: "Str msg_converged \<in> set (printed res) \<longleftrightarrow>
        (\<exists>i pre. executes fpu_ieee malloc_all near_input i pre \<and>
           dlt (fabs (fsub fpu_ieee
                  (arr_x (snd (muller_body fpu_ieee (tolerance fpu_ieee (in_n near_input)) i pre))
                     ! (i + 1))
                  (arr_x (snd (muller_body fpu_ieee (tolerance fpu_ieee (in_n near_input)) i pre))
                     ! i)))
               (tolerance fpu_ieee (in_n near_input)))"
    using exactly_one_outcome_message [OF near_accepted all_granted, of fpu_ieee] by blast
  have yes: "Str msg_converged \<in> set (printed res)"
    using r unfolding near_run by auto
  then have "count_list (printed res) (Str msg_converged) \<noteq> 0"
    by (simp add: in_set_count)
  with one have "count_list (printed res) (Str msg_not_reached) = 0"
    by simp
  then have no: "Str msg_not_reached \<notin> set (printed res)"
    by (simp add: in_set_count)
  from yes conv have pass: "\<exists>i pre. executes fpu_ieee malloc_all near_input i pre \<and>
      dlt (fabs (fsub fpu_ieee
             (arr_x (snd (muller_body fpu_ieee (tolerance fpu_ieee (in_n near_input)) i pre))
                ! (i + 1))
             (arr_x (snd (muller_body fpu_ieee (tolerance fpu_ieee (in_n near_input)) i pre))
                ! i)))
          (tolerance fpu_ieee (in_n near_input))"
    by simp
  from r yes no one have "\<exists>res. main fpu_ieee malloc_all near_input = Inr res \<and>
      Str msg_converged \<in> set (printed res) \<and>
      Str msg_not_reached \<notin> set (printed res) \<and>
      count_list (printed res) (Str msg_converged)
        + count_list (printed res) (Str msg_not_reached) = 1"
    by blast
  with near_accepted all_granted pass show ?thesis
    by (intro conjI) assumption+
qed

text \<open>
  C5. In every run that reaches the solve the table has as many rows as the index of the
  last executed pass plus one, and row \<open>k\<close> (from 0) shows the step number \<open>k + 1\<close>
  with \<open>x[k]\<close>, \<open>y[k]\<close>, \<open>d[k]\<close>, \<open>c[k]\<close>. The number of rows never exceeds the
  requested iteration count and reaches it exactly when the run never converged or
  converged in the pass at the last index, \<open>usr_iters - 1\<close>; it stays below the
  \<open>usr_iters + 1\<close> cells of the arrays.
\<close>

theorem table_row_count:
  assumes "accepted inp" "granted M"
  shows "\<exists>res last.
     main A M inp = Inr res \<and> iters (solved A M inp) = Some last \<and>
     length (filter is_row (printed res)) = last + 1 \<and>
     filter is_row (printed res) =
       map (\<lambda>k. Row (int k + 1) (arr_x (solved A M inp) ! k) (arr_y (solved A M inp) ! k)
                     (arr_d (solved A M inp) ! k) (arr_c (solved A M inp) ! k))
         [0..<last + 1] \<and>
     last + 1 \<le> nat (in_usr_iters inp) \<and>
     last + 1 < nat (arr_size inp) \<and>
     (last + 1 = nat (in_usr_iters inp) \<longleftrightarrow>
        find_root (solved A M inp) = False \<or>
        find_root (solved A M inp) \<and> last = nat (in_usr_iters inp) - 1)"
proof -
  let ?fin = "solved A M inp" and ?n = "nat (in_usr_iters inp)"
  obtain last pre where ex: "executes A M inp last pre"
    and it: "iters ?fin = Some last"
    and stop: "find_root ?fin \<or> last + 1 = ?n"
    and mn: "main A M inp = Inr \<lparr>printed = transcript (find_root ?fin) ?fin last,
            status = EXIT_SUCCESS, heap = [Freed, Freed, Freed, Freed]\<rparr>"
    using run_transcript [OF assms, of A] by blast
  let ?res = "\<lparr>printed = transcript (find_root ?fin) ?fin last,
            status = EXIT_SUCCESS, heap = [Freed, Freed, Freed, Freed]\<rparr>"
  have lt: "last < ?n" using ex by (simp add: executes_def)
  have sz: "nat (arr_size inp) = ?n + 1" using usr_nat [OF assms(1)] by simp
  have r1: "length (filter is_row (printed ?res)) = last + 1"
    by (simp add: transcript_rows length_rows)
  have r2: "filter is_row (printed ?res) =
       map (\<lambda>k. Row (int k + 1) (arr_x ?fin ! k) (arr_y ?fin ! k)
                     (arr_d ?fin ! k) (arr_c ?fin ! k)) [0..<last + 1]"
    by (simp add: transcript_rows table_rows_def)
  have r3: "last + 1 \<le> ?n" using lt by simp
  have r4: "last + 1 < nat (arr_size inp)" using lt sz by simp
  have r5: "last + 1 = ?n \<longleftrightarrow>
        find_root ?fin = False \<or> find_root ?fin \<and> last = ?n - 1"
    using stop lt by auto
  from mn it r1 r2 r3 r4 r5 show ?thesis
    by (intro exI [of _ ?res] exI [of _ last] conjI) assumption+
qed

theorem table_row_count_witness:
  "accepted example_input \<and> granted malloc_all \<and>
   (\<exists>res last.
     main fpu_ieee malloc_all example_input = Inr res \<and> iters (solved fpu_ieee malloc_all example_input) = Some last \<and>
     length (filter is_row (printed res)) = last + 1 \<and>
     filter is_row (printed res) =
       map (\<lambda>k. Row (int k + 1) (arr_x (solved fpu_ieee malloc_all example_input) ! k) (arr_y (solved fpu_ieee malloc_all example_input) ! k)
                     (arr_d (solved fpu_ieee malloc_all example_input) ! k) (arr_c (solved fpu_ieee malloc_all example_input) ! k))
         [0..<last + 1] \<and>
     last + 1 \<le> nat (in_usr_iters example_input) \<and>
     last + 1 < nat (arr_size example_input) \<and>
     (last + 1 = nat (in_usr_iters example_input) \<longleftrightarrow>
        find_root (solved fpu_ieee malloc_all example_input) = False \<or>
        find_root (solved fpu_ieee malloc_all example_input) \<and> last = nat (in_usr_iters example_input) - 1))"
  using example_accepted all_granted
    table_row_count [OF example_accepted all_granted, of fpu_ieee]
  by (intro conjI) assumption+



text \<open>The claim as it was stated, that for \<open>s == 0\<close> the denominator is \<open>s\<close> alone,
  fails on the update of line 209 at \<open>s = -0\<close> with \<open>x[i] = 0\<close>, \<open>y[i] = -2\<close> and
  \<open>d[i] = 0\<close>: the denominator is \<open>+0\<close> and \<open>x[i+1]\<close> is \<open>+infinity\<close>, where
  \<open>x[i] - 2 * y[i] / s\<close> is \<open>-infinity\<close>. It fails too at \<open>s = 0\<close> with an infinite
  \<open>y[i]\<close>: \<open>x[i+1]\<close> is a NaN, where \<open>x[i] - 2 * y[i] / s\<close> is \<open>-infinity\<close>.\<close>

theorem sqrt_term_not_lost:
  "deq 0x8000000000000000 (int_to_double 0) \<and>
   next_x fpu_ieee 0 (int_to_double (- 2)) 0x8000000000000000 0 = 0x7FF0000000000000 \<and>
   fsub fpu_ieee 0 (fdiv fpu_ieee (fmul fpu_ieee (int_to_double 2) (int_to_double (- 2)))
      0x8000000000000000) = 0xFFF0000000000000 \<and>
   deq 0 (int_to_double 0) \<and>
   is_nan (next_x fpu_ieee 0 0x7FF0000000000000 0 0) \<and>
   fsub fpu_ieee 0 (fdiv fpu_ieee (fmul fpu_ieee (int_to_double 2) 0x7FF0000000000000) 0) =
     0xFFF0000000000000"
  by code_simp



text \<open>The claim as it was stated, that the loop is never left early because of an
  infinite result, fails on the run from 3e51 and -1e51 with 20 iterations and 15
  digits. \<open>y[0]\<close> and \<open>c[0]\<close> are \<open>+infinity\<close>; the pass at index 2 stores
  \<open>d[0] = +infinity\<close> and finds \<open>s = +infinity\<close>, so that \<open>x[3] = x[2]\<close>; its test
  succeeds on the step 0, and the loop ends there, 17 passes early, with the
  convergence message and three rows.\<close>

theorem infinite_result_ends_loop:
  "accepted overflow_input \<and> granted malloc_all \<and>
   executes fpu_ieee malloc_all overflow_input 2 (pre_loop fpu_ieee malloc_all overflow_input) \<and>
   2 + 1 < nat (in_usr_iters overflow_input) \<and>
   arr_y (pre_loop fpu_ieee malloc_all overflow_input) ! 0 = 0x7FF0000000000000 \<and>
   arr_c (pre_loop fpu_ieee malloc_all overflow_input) ! 0 = 0x7FF0000000000000 \<and>
   (let post = snd (muller_body fpu_ieee (tolerance fpu_ieee (in_n overflow_input)) 2
                     (pre_loop fpu_ieee malloc_all overflow_input));
        s = fadd fpu_ieee (arr_c post ! 1)
              (fmul fpu_ieee (fsub fpu_ieee (arr_x post ! 2) (arr_x post ! 1)) (arr_d post ! 0))
    in arr_d post ! 0 = 0x7FF0000000000000 \<and> s = 0x7FF0000000000000 \<and>
       arr_x post ! 3 = arr_x post ! 2 \<and>
       fsub fpu_ieee (arr_x post ! 3) (arr_x post ! 2) = 0) \<and>
   fst (muller_body fpu_ieee (tolerance fpu_ieee (in_n overflow_input)) 2
          (pre_loop fpu_ieee malloc_all overflow_input)) \<and>
   main fpu_ieee malloc_all overflow_input =
     Inr \<lparr>printed = prompts @ [Str msg_converged, Endl, Endl] @ table_header @
       [Row 1 0x4AA0095DD9267E50 0x7FF0000000000000 0x7FF0000000000000 0x7FF0000000000000,
        Row 2 0xCA8561D276DDFDC0 0x7F76C8E5CA239029 0 0,
        Row 3 0x4A8561D276DDFDC0 0x7F76C8E5CA239029 0 0],
       status = EXIT_SUCCESS, heap = [Freed, Freed, Freed, Freed]\<rparr>"
proof -
  have "2 + 1 < nat (in_usr_iters overflow_input)"
    by (simp add: overflow_input_def)
  with overflow_accepted all_granted overflow_executes [of fpu_ieee malloc_all]
    overflow_pass overflow_run
  show ?thesis by (intro conjI) assumption+
qed

text \<open>
  C8. The four arrays, of \<open>usr_iters + 1\<close> cells each, are to be released before the
  process exits on every path that allocates them, the path that prints the
  allocation-failure diagnostic included. A run that reaches the solve does free all
  four (the heap of \<open>run_summary\<close>). The path of the diagnostic does not: it returns
  without a call of \<^verbatim>\<open>free\<close>. In the source's first example (20 iterations, so 21
  cells of 8 bytes), with the first two requests granted and the third refused, the
  blocks of \<^verbatim>\<open>x\<close> and \<^verbatim>\<open>y\<close> are still live when the process exits.
\<close>

theorem allocation_failure_leaks:
  "main A malloc_two example_input =
     Inr \<lparr>printed = prompts @ [Str ''Dynamic memory allocation problem ('', Num 168,
                                 Str '' bytes).'', Endl],
          status = EXIT_FAILURE,
          heap = [Live (replicate 21 quiet_nan), Live (replicate 21 quiet_nan), Null, Null]\<rparr>"
  unfolding alloc_failure_exit [OF example_accepted two_not_granted]
  by (simp add: example_input_def malloc_def malloc_two_def map_replicate_const)

text \<open>
  C9. When the input passes the three checks, \<^verbatim>\<open>iters\<close> is never read before it is
  assigned, whatever \<^verbatim>\<open>malloc\<close> does: if the arrays are granted, the loop enters its
  pass at index 2 (since \<open>2 < usr_iters\<close>), which assigns \<^verbatim>\<open>iters\<close>, so that the test
  after the loop finds an index between 2 and \<open>usr_iters - 1\<close> there; if they are not,
  the program exits before the loop.
\<close>

theorem step_tracker_assigned:
  assumes "accepted inp"
  shows "main A M inp \<noteq> Inl Uninitialised_read \<and>
     (granted M \<longrightarrow>
        executes A M inp 2 (pre_loop A M inp) \<and>
        solved A M inp =
          (let r = muller_body A (tolerance A (in_n inp)) 2 (pre_loop A M inp)
           in if fst r then snd r
              else muller_loop A (tolerance A (in_n inp)) (nat (in_usr_iters inp)) 3 (snd r)) \<and>
        (\<exists>k. iters (solved A M inp) = Some k \<and> 2 \<le> k \<and> k < nat (in_usr_iters inp)))"
proof (intro conjI impI)
  show "main A M inp \<noteq> Inl Uninitialised_read"
  proof (cases "granted M")
    case True
    then show ?thesis using run_transcript [OF assms True, of A] by auto
  next
    case False
    then show ?thesis
      using assms by (auto simp: main_def accepted_def granted_def malloc_def Let_def)
  qed
next
  assume g: "granted M"
  have n: "2 < nat (in_usr_iters inp)" using usr_nat [OF assms] by simp
  then show "executes A M inp 2 (pre_loop A M inp)"
    by (simp add: executes_def)
  show "solved A M inp =
          (let r = muller_body A (tolerance A (in_n inp)) 2 (pre_loop A M inp)
           in if fst r then snd r
              else muller_loop A (tolerance A (in_n inp)) (nat (in_usr_iters inp)) 3 (snd r))"
    unfolding solved_def using n by (subst muller_loop.simps) (simp add: Let_def)
  obtain last pre where "executes A M inp last pre" "iters (solved A M inp) = Some last"
    using run_transcript [OF assms g, of A] by blast
  then show "\<exists>k. iters (solved A M inp) = Some k \<and> 2 \<le> k \<and> k < nat (in_usr_iters inp)"
    by (auto simp: executes_def)
qed

theorem step_tracker_assigned_witness:
  "accepted near_input \<and> granted malloc_all \<and>
   main fpu_ieee malloc_all near_input \<noteq> Inl Uninitialised_read \<and>
   executes fpu_ieee malloc_all near_input 2 (pre_loop fpu_ieee malloc_all near_input) \<and>
   (\<exists>k. iters (solved fpu_ieee malloc_all near_input) = Some k \<and> 2 \<le> k \<and>
        k < nat (in_usr_iters near_input))"
  using near_accepted all_granted
    step_tracker_assigned [OF near_accepted, of fpu_ieee malloc_all]
  by blast

text \<open>
  C10. In every run that reaches the solve, the last executed pass, at index \<open>k\<close>,
  writes the newest approximation \<open>x[k+1]\<close> and its function value \<open>y[k+1]\<close> into
  the arrays, and the table ends with the row of index \<open>k\<close>: the newest approximation
  has no row. The last row shows zero in its \<open>d\<close> and \<open>c\<close> columns: the pass at index
  \<open>i\<close> writes only \<open>d[i-2]\<close> and \<open>c[i-1]\<close>, so \<open>d[k]\<close>, \<open>d[k-1]\<close> and \<open>c[k]\<close>
  still hold the zero they were initialised with.
\<close>

theorem newest_approximation_not_shown:
  assumes "accepted inp" "granted M"
  shows "\<exists>res k.
     main A M inp = Inr res \<and> iters (solved A M inp) = Some k \<and>
     (let x = arr_x (solved A M inp); y = arr_y (solved A M inp);
          d = arr_d (solved A M inp); c = arr_c (solved A M inp);
          s = fadd A (c ! (k - 1)) (fmul A (fsub A (x ! k) (x ! (k - 1))) (d ! (k - 2)))
      in 2 \<le> k \<and> k + 1 < length x \<and>
         x ! (k + 1) =
           fsub A (x ! k)
             (fdiv A (fmul A (int_to_double 2) (y ! k))
                (fadd A s
                   (fmul A (int_to_double (sign s))
                      (fsqrt A (fabs (fsub A (fpow A s 2)
                         (fmul A (fmul A (int_to_double 4) (y ! k)) 0))))))) \<and>
         y ! (k + 1) = fsub A (fpow A (x ! (k + 1)) 6) (int_to_double 2) \<and>
         filter is_row (printed res) =
           map (\<lambda>j. Row (int j + 1) (x ! j) (y ! j) (d ! j) (c ! j)) [0..<k + 1] \<and>
         last (filter is_row (printed res)) = Row (int k + 1) (x ! k) (y ! k) 0 0 \<and>
         d ! k = 0 \<and> d ! (k - 1) = 0 \<and> c ! k = 0)"
proof -
  let ?fin = "solved A M inp" and ?n = "nat (in_usr_iters inp)"
  let ?tol = "tolerance A (in_n inp)"
  obtain k pre where ex: "executes A M inp k pre"
    and fin: "?fin = snd (muller_body A ?tol k pre)"
    and it: "iters ?fin = Some k"
    and mn: "main A M inp = Inr \<lparr>printed = transcript (find_root ?fin) ?fin k,
            status = EXIT_SUCCESS, heap = [Freed, Freed, Freed, Freed]\<rparr>"
    using run_transcript [OF assms, of A] by blast
  let ?res = "\<lparr>printed = transcript (find_root ?fin) ?fin k,
            status = EXIT_SUCCESS, heap = [Freed, Freed, Freed, Freed]\<rparr>"
  note v = pass_values [OF assms ex, folded fin]
  have k: "2 \<le> k" using ex by (simp add: executes_def)
  have rows: "filter is_row (printed ?res) =
       map (\<lambda>j. Row (int j + 1) (arr_x ?fin ! j) (arr_y ?fin ! j)
                     (arr_d ?fin ! j) (arr_c ?fin ! j)) [0..<k + 1]"
    by (simp add: transcript_rows table_rows_def)
  have lst: "last (filter is_row (printed ?res)) =
      Row (int k + 1) (arr_x ?fin ! k) (arr_y ?fin ! k) 0 0"
    unfolding rows using v(8) v(10) by simp
  have "let x = arr_x ?fin; y = arr_y ?fin; d = arr_d ?fin; c = arr_c ?fin;
          s = fadd A (c ! (k - 1)) (fmul A (fsub A (x ! k) (x ! (k - 1))) (d ! (k - 2)))
      in 2 \<le> k \<and> k + 1 < length x \<and>
         x ! (k + 1) =
           fsub A (x ! k)
             (fdiv A (fmul A (int_to_double 2) (y ! k))
                (fadd A s
                   (fmul A (int_to_double (sign s))
                      (fsqrt A (fabs (fsub A (fpow A s 2)
                         (fmul A (fmul A (int_to_double 4) (y ! k)) 0))))))) \<and>
         y ! (k + 1) = fsub A (fpow A (x ! (k + 1)) 6) (int_to_double 2) \<and>
         filter is_row (printed ?res) =
           map (\<lambda>j. Row (int j + 1) (x ! j) (y ! j) (d ! j) (c ! j)) [0..<k + 1] \<and>
         last (filter is_row (printed ?res)) = Row (int k + 1) (x ! k) (y ! k) 0 0 \<and>
         d ! k = 0 \<and> d ! (k - 1) = 0 \<and> c ! k = 0"
    unfolding Let_def
    using k v(1) v(5) [unfolded v(7) next_x_def] v(6) [unfolded function_f_def]
      rows lst v(8) v(9) v(10)
    by (intro conjI) assumption+
  with mn it show ?thesis
    by (intro exI [of _ ?res] exI [of _ k] conjI) assumption+
qed

theorem newest_approximation_not_shown_witness:
  "accepted example_input \<and> granted malloc_all \<and>
   (\<exists>res k.
     main fpu_ieee malloc_all example_input = Inr res \<and> iters (solved fpu_ieee malloc_all example_input) = Some k \<and>
     (let x = arr_x (solved fpu_ieee malloc_all example_input); y = arr_y (solved fpu_ieee malloc_all example_input);
          d = arr_d (solved fpu_ieee malloc_all example_input); c = arr_c (solved fpu_ieee malloc_all example_input);
          s = fadd fpu_ieee (c ! (k - 1)) (fmul fpu_ieee (fsub fpu_ieee (x ! k) (x ! (k - 1))) (d ! (k - 2)))
      in 2 \<le> k \<and> k + 1 < length x \<and>
         x ! (k + 1) =
           fsub fpu_ieee (x ! k)
             (fdiv fpu_ieee (fmul fpu_ieee (int_to_double 2) (y ! k))
                (fadd fpu_ieee s
                   (fmul fpu_ieee (int_to_double (sign s))
                      (fsqrt fpu_ieee (fabs (fsub fpu_ieee (fpow fpu_ieee s 2)
                         (fmul fpu_ieee (fmul fpu_ieee (int_to_double 4) (y ! k)) 0))))))) \<and>
         y ! (k + 1) = fsub fpu_ieee (fpow fpu_ieee (x ! (k + 1)) 6) (int_to_double 2) \<and>
         filter is_row (printed res) =
           map (\<lambda>j. Row (int j + 1) (x ! j) (y ! j) (d ! j) (c ! j)) [0..<k + 1] \<and>
         last (filter is_row (printed res)) = Row (int k + 1) (x ! k) (y ! k) 0 0 \<and>
         d ! k = 0 \<and> d ! (k - 1) = 0 \<and> c ! k = 0))"
  using example_accepted all_granted
    newest_approximation_not_shown [OF example_accepted all_granted, of fpu_ieee]
  by (intro conjI) assumption+

end
